theory Spec2Isabelle
  imports Main "HOL-Library.Word"
begin

unbundle bit_operations_syntax

section \<open>Bytes, errors and panics\<close>

type_synonym byte = "8 word"
type_synonym bytes = "byte list"

text \<open>
  A Go function of this package either returns (possibly with a non-nil \<open>error\<close>) or
  panics. A returned error is a value of type \<open>error\<close>; a panic is the \<open>Inl\<close> branch
  of the result, so that every index out of range, nil dereference and explicit
  \<open>panic(...)\<close> of the source is a branch of the model.
\<close>

datatype error =
    errInsertIntoHash
  | errValueNotPresent
  | errInsertIntoOtherStem
  | errNotSupportedInStateless
  | errStatelessAndStatefulMix
  | errorsNew string
  | fmtErrorf_w string error
  | fmtErrorf_x_w string bytes error

datatype panic =
    IndexOutOfRange
  | NilDereference
  | NilMapWrite
  | DivisionByZero
  | TypeAssertion
  | PanicMsg string

section \<open>tree.go: the stateful tree\<close>

subsection \<open>Data\<close>

text \<open>
  \<open>TreeConfig\<close> is declared outside the two source files; the fields used by tree.go are
  \<open>width\<close> (bits of key consumed per level), \<open>nodeWidth\<close> (children per node),
  \<open>modulus\<close> and the Lagrange basis \<open>lg1\<close>. Group points are values of a type \<open>'g\<close>
  with the group law written additively; \<open>bls.ZERO_G1\<close> is \<open>0\<close>.
\<close>

record 'g TreeConfig =
  width :: nat
  nodeWidth :: nat
  modulus :: int
  lg1 :: "'g list"

text \<open>
  The interface \<open>VerkleNode\<close> of tree.go, as a closed sum of its implementations
  \<open>empty\<close>, \<open>hashedNode\<close>, \<open>leafNode\<close>, \<open>accountLeaf\<close> and \<open>InternalNode\<close>.
  \<open>nilNode\<close> is the nil interface value, which the type switches of the source name
  explicitly. A \<open>[]byte\<close> value that may be nil and is returned to the caller is a
  \<open>bytes option\<close> (\<open>None\<close> is nil); keys are only compared and indexed, where nil and
  the empty slice behave alike, so a key is a plain byte list.
\<close>

datatype 'g node =
    emptyNode
  | nilNode
  | hashedNode (hn_hash: bytes) (hn_commitment: "'g option")
  | leafNode (ln_key: bytes) (ln_value: "bytes option")
  | accountLeaf (al_key: bytes) (al_Version: "64 word") (al_Balance: "int option")
      (al_Nonce: "64 word") (al_CodeSize: "64 word") (al_CodeHash: bytes)
      (al_commitment: "'g option") (al_treeConfig: "'g TreeConfig option")
  | InternalNode (in_children: "'g node list") (in_depth: nat) (in_hash: bytes)
      (in_commitment: "'g option") (in_treeConfig: "'g TreeConfig")

definition zeroHash :: bytes where
  "zeroHash = replicate 32 0"

definition newInternalNode :: "nat \<Rightarrow> 'g TreeConfig \<Rightarrow> 'g node" where
  "newInternalNode depth tc =
     InternalNode (replicate (nodeWidth tc) emptyNode) depth zeroHash None tc"

text \<open>
  \<open>New(width)\<close> is \<open>newInternalNode(0, GetTreeConfig(width))\<close>. \<open>GetTreeConfig\<close> is not
  part of the two source files, so the configuration it returns is the argument here.
\<close>

definition New :: "'g TreeConfig \<Rightarrow> 'g node" where
  "New tc = newInternalNode 0 tc"

subsection \<open>offset2Key\<close>

definition offset2KeyTenBits :: "bytes \<Rightarrow> nat \<Rightarrow> panic + nat" where
  "offset2KeyTenBits key offset =
     (let nFirstByte = offset div 8;
          nBitsInSecondByte = (offset + 10) mod 8;
          firstBitShift = 8 - (offset mod 8);
          lastBitShift = (8 - nBitsInSecondByte) mod 8
      in if nFirstByte \<ge> length key then Inl IndexOutOfRange
         else
           let leftMask = push_bit firstBitShift (drop_bit firstBitShift (key ! nFirstByte));
               ret = push_bit (unat ((word_of_nat nBitsInSecondByte :: 64 word) - 1) mod 8 + 1)
                       (ucast ((key ! nFirstByte) XOR leftMask) :: 64 word)
           in if nFirstByte + 1 < length key
              then Inr (unat (ret OR ucast (drop_bit lastBitShift (key ! (nFirstByte + 1)))))
              else Inr (unat ret))"

definition offset2Key :: "bytes \<Rightarrow> nat \<Rightarrow> nat \<Rightarrow> panic + nat" where
  "offset2Key key offset w =
     (if w = 10 then offset2KeyTenBits key offset
      else if w = 8 then
        (if offset div 8 < length key then Inr (unat (key ! (offset div 8)))
         else Inl IndexOutOfRange)
      else Inl (PanicMsg ''node width not supported''))"

subsection \<open>Get\<close>

text \<open>Big-endian encodings used by \<open>accountLeaf\<close>: \<open>big.Int.Bytes\<close> and \<open>PutUint64\<close>.\<close>

fun bigBytes :: "nat \<Rightarrow> bytes" where
  "bigBytes n = (if n = 0 then [] else bigBytes (n div 256) @ [of_nat (n mod 256)])"

declare bigBytes.simps [simp del]

definition PutUint64 :: "64 word \<Rightarrow> bytes" where
  "PutUint64 w = map (\<lambda>i. ucast (drop_bit (8 * (7 - i)) w)) [0..<8]"

lemma size_nth_children:
  "cs ! i = x \<Longrightarrow> \<not> length cs \<le> i \<Longrightarrow> size x \<le> size_list size cs"
  using size_list_estimation' [of "cs ! i" cs "size (cs ! i)" size] by auto

text \<open>
  \<open>Get\<close> of every implementation. None of them assigns to a field, so the model returns
  the pair \<open>(value, error)\<close> only and the node is unchanged by construction.
\<close>

function Get :: "'g node \<Rightarrow> bytes \<Rightarrow> panic + (bytes option \<times> error option)" where
  "Get (InternalNode cs d h c tc) k =
     (case offset2Key k d (width tc) of
        Inl p \<Rightarrow> Inl p
      | Inr nChild \<Rightarrow>
          if nChild \<ge> length cs then Inl IndexOutOfRange
          else (case cs ! nChild of
                  emptyNode \<Rightarrow> Inr (None, Some (errorsNew ''trying to read from an invalid child''))
                | hashedNode _ _ \<Rightarrow>
                    Inr (None, Some (errorsNew ''trying to read from an invalid child''))
                | nilNode \<Rightarrow>
                    Inr (None, Some (errorsNew ''trying to read from an invalid child''))
                | _ \<Rightarrow> Get (cs ! nChild) k))"
| "Get (leafNode key v) k =
     (if k \<noteq> key then Inr (None, Some errValueNotPresent) else Inr (v, None))"
| "Get (accountLeaf key ver bal nonce csize chash c tc) k =
     (if k \<noteq> key then Inr (None, Some errValueNotPresent)
      else if length k \<le> 31 then Inl IndexOutOfRange
      else if k ! 31 = 0 then Inr (Some (PutUint64 ver), None)
      else if k ! 31 = 1 then
        (case bal of None \<Rightarrow> Inl NilDereference
                   | Some b \<Rightarrow> Inr (Some (bigBytes (nat \<bar>b\<bar>)), None))
      else if k ! 31 = 2 then Inr (Some (PutUint64 nonce), None)
      else if k ! 31 = 3 then Inr (Some chash, None)
      else if k ! 31 = 4 then Inr (Some (PutUint64 csize), None)
      else Inr (None, Some errValueNotPresent))"
| "Get (hashedNode h c) k = Inr (None, Some (errorsNew ''can not read from a hash node''))"
| "Get emptyNode k = Inr (None, None)"
| "Get nilNode k = Inl NilDereference"
  by pat_completeness auto
termination
  by (relation "measure (\<lambda>(n, k). size n)") (auto dest: size_nth_children)

subsection \<open>Insert\<close>

definition beNat :: "bytes \<Rightarrow> nat" where
  "beNat bs = fold (\<lambda>b acc. acc * 256 + unat b) bs 0"

definition sliceBytes :: "bytes option \<Rightarrow> bytes" where
  "sliceBytes v = (case v of None \<Rightarrow> [] | Some bs \<Rightarrow> bs)"

fun height :: "'g node \<Rightarrow> nat" where
  "height (InternalNode cs d h c tc) = Suc (fold max (map height cs) 0)"
| "height _ = 0"

lemma fold_max_ge: "a \<le> fold max xs (a::nat)"
  by (induction xs arbitrary: a) (auto intro: order_trans [OF max.cobounded2])

lemma fold_max_mem: "x \<in> set xs \<Longrightarrow> x \<le> fold max xs (a::nat)"
proof (induction xs arbitrary: a)
  case Nil
  then show ?case by simp
next
  case (Cons y ys)
  show ?case
  proof (cases "x = y")
    case True
    have "max y a \<le> fold max ys (max y a)" by (rule fold_max_ge)
    with True show ?thesis by simp
  next
    case False
    with Cons show ?thesis by simp
  qed
qed

lemma fold_max_zero: "\<forall>x \<in> set xs. x = 0 \<Longrightarrow> fold max xs (0::nat) = 0"
  by (induction xs) auto

lemma height_child:
  "cs ! i = x \<Longrightarrow> \<not> length cs \<le> i \<Longrightarrow> height x < height (InternalNode cs d h c tc)"
  using fold_max_mem [of "height (cs ! i)" "map height cs" 0] by (auto simp: less_Suc_eq_le)

lemma fold_height_newBranch:
  "fold max (map height ((replicate n emptyNode)[i := leafNode k v])) 0 = 0"
  by (rule fold_max_zero) (auto dest!: set_update_subset_insert [THEN subsetD])

lemma offset2Key_bound:
  "offset2Key key off w = Inr i \<Longrightarrow> off < 8 * length key \<and> 0 < w"
  by (auto simp: offset2Key_def offset2KeyTenBits_def Let_def split: if_splits)

text \<open>
  \<open>Insert\<close> of every implementation. The receiver is mutated in place in the source; the
  model returns the receiver after the call together with the returned error. The
  internal node clears its cached commitment before anything else, so the cleared
  commitment is part of the state also when an error is returned. Slice expressions
  \<open>k[:31]\<close> are modelled on slices without spare capacity.
\<close>

function Insert :: "'g node \<Rightarrow> bytes \<Rightarrow> bytes option \<Rightarrow> panic + ('g node \<times> error option)" where
  "Insert (InternalNode cs d h c tc) key v =
     (case offset2Key key d (width tc) of
        Inl p \<Rightarrow> Inl p
      | Inr nChild \<Rightarrow>
          if nChild \<ge> length cs then Inl IndexOutOfRange
          else (case cs ! nChild of
             emptyNode \<Rightarrow> Inr (InternalNode (cs[nChild := leafNode key v]) d h None tc, None)
           | hashedNode _ _ \<Rightarrow> Inr (InternalNode cs d h None tc, Some errInsertIntoHash)
           | leafNode ckey cv \<Rightarrow>
               if ckey = key
               then Inr (InternalNode (cs[nChild := leafNode ckey v]) d h None tc, None)
               else
                 (case offset2Key ckey (d + width tc) (width tc) of
                    Inl p \<Rightarrow> Inl p
                  | Inr nextWordInExistingKey \<Rightarrow>
                      if nextWordInExistingKey \<ge> nodeWidth tc then Inl IndexOutOfRange
                      else
                        let newBranch =
                              InternalNode
                                ((replicate (nodeWidth tc) emptyNode)
                                   [nextWordInExistingKey := leafNode ckey cv])
                                (d + width tc) zeroHash None tc
                        in (case offset2Key key (d + width tc) (width tc) of
                              Inl p \<Rightarrow> Inl p
                            | Inr nextWordInInsertedKey \<Rightarrow>
                                if nextWordInInsertedKey \<noteq> nextWordInExistingKey
                                then
                                  (if nextWordInInsertedKey \<ge> nodeWidth tc
                                   then Inl IndexOutOfRange
                                   else Inr (InternalNode
                                     (cs[nChild := InternalNode
                                        ((replicate (nodeWidth tc) emptyNode)
                                           [nextWordInExistingKey := leafNode ckey cv,
                                            nextWordInInsertedKey := leafNode key v])
                                        (d + width tc) zeroHash None tc])
                                     d h None tc, None))
                                else
                                  (case Insert newBranch key v of
                                     Inl p \<Rightarrow> Inl p
                                   | Inr (newBranch', _) \<Rightarrow>
                                       Inr (InternalNode (cs[nChild := newBranch']) d h None tc,
                                            None))))
           | _ \<Rightarrow>
               (case Insert (cs ! nChild) key v of
                  Inl p \<Rightarrow> Inl p
                | Inr (child', err) \<Rightarrow>
                    Inr (InternalNode (cs[nChild := child']) d h None tc, err))))"
| "Insert (leafNode key cv) k v =
     (if k \<noteq> key then Inr (leafNode key cv, Some (errorsNew ''inserting invalid key into key''))
      else Inr (leafNode k v, None))"
| "Insert (accountLeaf key ver bal nonce csize chash c tc) k v =
     (if length k < 31 \<or> length key < 31 then Inl IndexOutOfRange
      else if take 31 k \<noteq> take 31 key
      then Inr (accountLeaf key ver bal nonce csize chash c tc,
                Some (errorsNew ''inserting invalid key into key''))
      else if length k \<le> 31 then Inl IndexOutOfRange
      else if k ! 31 = 1 then
        (case bal of
           None \<Rightarrow> Inl NilDereference
         | Some _ \<Rightarrow>
             Inr (accountLeaf key ver (Some (int (beNat (sliceBytes v)))) nonce csize chash None tc,
                  None))
      else if k ! 31 = 2 then
        (if length (sliceBytes v) < 8 then Inl IndexOutOfRange
         else Inr (accountLeaf key ver bal (word_of_nat (beNat (take 8 (sliceBytes v))))
                     csize chash None tc, None))
      else Inr (accountLeaf key ver bal nonce csize chash c tc,
                Some (errorsNew ''writing to read-only location'')))"
| "Insert (hashedNode h c) k v = Inr (hashedNode h c, Some errInsertIntoHash)"
| "Insert emptyNode k v =
     Inr (emptyNode, Some (errorsNew ''an empty node should not be inserted directly into''))"
| "Insert nilNode k v = Inl NilDereference"
  by pat_completeness auto

text \<open>
  The recursion into \<open>newBranch\<close> is not structural: it terminates because every such
  call consumes one more word of the inserted key, and \<open>offset2Key\<close> panics past the
  end of the key.
\<close>

termination Insert
  apply (relation "measures [\<lambda>(n, k, v). height n, \<lambda>(n, k, v). 8 * length k - in_depth n]")
   apply simp
      apply (auto dest: height_child offset2Key_bound simp: fold_height_newBranch)
  done

subsection \<open>ComputeCommitment\<close>

text \<open>
  The curve and hash library (\<open>bls\<close>, \<open>sha256\<close>) is external to the repository. Its
  operations are the fields of a record passed to the functions that use them; \<open>'g\<close>
  is the group of points (\<open>bls.AddG1\<close> is \<open>+\<close>, \<open>bls.ZERO_G1\<close> is \<open>0\<close>) and \<open>'f\<close> the
  scalar field (\<open>bls.EqualZero\<close> is \<open>= 0\<close>; a freshly allocated \<open>bls.Fr\<close> is \<open>0\<close>).
\<close>

record ('g, 'f) bls =
  sha256 :: "bytes \<Rightarrow> bytes"
  ToCompressedG1 :: "'g \<Rightarrow> bytes"
  FrFrom32 :: "bytes \<Rightarrow> 'f option"
  MulG1 :: "'g \<Rightarrow> 'f \<Rightarrow> 'g"
  LinCombG1 :: "'g list \<Rightarrow> 'f list \<Rightarrow> 'g"
  AsFr :: "64 word \<Rightarrow> 'f"
  GenG1 :: 'g

definition multiExpThreshold :: int where
  "multiExpThreshold = 110"

definition leNat :: "bytes \<Rightarrow> nat" where
  "leNat bs = foldr (\<lambda>b acc. unat b + 256 * acc) bs 0"

definition leBytes32 :: "nat \<Rightarrow> bytes" where
  "leBytes32 x = map (\<lambda>i. of_nat (x div 256 ^ i mod 256)) [0..<32]"

text \<open>
  \<open>hashToFr\<close>: the hash is read as a little-endian number, reduced modulo \<open>modulus\<close>
  (\<open>big.Int.Mod\<close> is the Euclidean modulus and panics on a zero modulus), written back
  as 32 little-endian bytes and handed to \<open>bls.FrFrom32\<close>.
\<close>

definition hashToFr :: "('g, 'f) bls \<Rightarrow> bytes \<Rightarrow> int \<Rightarrow> panic + 'f" where
  "hashToFr B h m =
     (if m = 0 then Inl DivisionByZero
      else
        let x = leNat h mod nat \<bar>m\<bar>
        in if x \<ge> 2 ^ 256 then Inl IndexOutOfRange
           else (case FrFrom32 B (leBytes32 x) of
                   None \<Rightarrow> Inl (PanicMsg ''invalid Fr number'')
                 | Some fr \<Rightarrow> Inr fr))"

text \<open>
  The loop \<open>for i := range poly\<close> of the direct sum: a non-zero entry adds
  \<open>lg1[i] * poly[i]\<close> to the accumulator.
\<close>

fun directSum :: "('g::ab_group_add, 'f::zero) bls \<Rightarrow> 'g list \<Rightarrow> 'f list \<Rightarrow> nat \<Rightarrow> 'g \<Rightarrow> panic + 'g" where
  "directSum B lg [] i comm = Inr comm"
| "directSum B lg (p # ps) i comm =
     (if p = 0 then directSum B lg ps (Suc i) comm
      else if i \<ge> length lg then Inl IndexOutOfRange
      else directSum B lg ps (Suc i) (comm + MulG1 B (lg ! i) p))"

definition FillBytes32 :: "nat \<Rightarrow> panic + bytes" where
  "FillBytes32 x =
     (if x \<ge> 2 ^ 256 then Inl (PanicMsg ''math/big: buffer too small to fit value'')
      else Inr (rev (leBytes32 x)))"

definition accountLeaf_poly ::
  "('g, 'f) bls \<Rightarrow> 64 word \<Rightarrow> int option \<Rightarrow> 64 word \<Rightarrow> 64 word \<Rightarrow> bytes \<Rightarrow> 'g TreeConfig option
     \<Rightarrow> panic + 'f list" where
  "accountLeaf_poly B ver bal nonce csize chash tc =
     (case bal of
        None \<Rightarrow> Inl NilDereference
      | Some b \<Rightarrow>
          (case FillBytes32 (nat \<bar>b\<bar>) of
             Inl p \<Rightarrow> Inl p
           | Inr data \<Rightarrow>
               (case tc of
                  None \<Rightarrow> Inl NilDereference
                | Some c \<Rightarrow>
                    (case hashToFr B data (modulus c) of
                       Inl p \<Rightarrow> Inl p
                     | Inr p1 \<Rightarrow>
                         (case hashToFr B chash (modulus c) of
                            Inl p \<Rightarrow> Inl p
                          | Inr p3 \<Rightarrow>
                              Inr [AsFr B ver, p1, AsFr B nonce, p3, AsFr B csize])))))"

text \<open>
  \<open>ComputeCommitment\<close> of every implementation, with the loop over the children of an
  internal node as \<open>ComputeCommitment_children\<close>: it returns the children after the
  call (an internal or account child caches its commitment), the entries of \<open>poly\<close> for
  the indices of the children, and \<open>emptyChildren\<close>.
\<close>

fun ComputeCommitment ::
    "('g::ab_group_add, 'f::zero) bls \<Rightarrow> 'g node \<Rightarrow> panic + ('g node \<times> 'g)"
  and ComputeCommitment_children ::
    "('g, 'f) bls \<Rightarrow> 'g TreeConfig \<Rightarrow> 'g node list \<Rightarrow> nat
       \<Rightarrow> panic + ('g node list \<times> 'f list \<times> nat)" where
  "ComputeCommitment B emptyNode = Inr (emptyNode, 0)"
| "ComputeCommitment B nilNode = Inl NilDereference"
| "ComputeCommitment B (leafNode k v) = Inl (PanicMsg ''can't compute the commitment directly'')"
| "ComputeCommitment B (hashedNode h c) =
     (case c of
        Some p \<Rightarrow> Inr (hashedNode h c, p)
      | None \<Rightarrow>
          (case hashToFr B h 0 of
             Inl p \<Rightarrow> Inl p
           | Inr hashAsFr \<Rightarrow>
               Inr (hashedNode h (Some (MulG1 B (GenG1 B) hashAsFr)),
                    MulG1 B (GenG1 B) hashAsFr)))"
| "ComputeCommitment B (accountLeaf key ver bal nonce csize chash c tc) =
     (case accountLeaf_poly B ver bal nonce csize chash tc of
        Inl p \<Rightarrow> Inl p
      | Inr poly \<Rightarrow>
          (case directSum B (case tc of None \<Rightarrow> [] | Some t \<Rightarrow> lg1 t) poly 0 0 of
             Inl p \<Rightarrow> Inl p
           | Inr comm \<Rightarrow>
               Inr (accountLeaf key ver bal nonce csize chash (Some comm) tc, comm)))"
| "ComputeCommitment B (InternalNode cs d h c tc) =
     (case c of
        Some p \<Rightarrow> Inr (InternalNode cs d h c tc, p)
      | None \<Rightarrow>
          (case ComputeCommitment_children B tc cs 0 of
             Inl p \<Rightarrow> Inl p
           | Inr (cs', frs, emptyChildren) \<Rightarrow>
               let poly = take (nodeWidth tc) (frs @ replicate (nodeWidth tc - length frs) 0)
               in if int (nodeWidth tc) - int emptyChildren \<ge> multiExpThreshold
                  then Inr (InternalNode cs' d h (Some (LinCombG1 B (lg1 tc) poly)) tc,
                            LinCombG1 B (lg1 tc) poly)
                  else (case directSum B (lg1 tc) poly 0 0 of
                          Inl p \<Rightarrow> Inl p
                        | Inr comm \<Rightarrow> Inr (InternalNode cs' d h (Some comm) tc, comm))))"
| "ComputeCommitment_children B tc [] idx = Inr ([], [], 0)"
| "ComputeCommitment_children B tc (childC # rest) idx =
     (case childC of
        emptyNode \<Rightarrow>
          (case ComputeCommitment_children B tc rest (Suc idx) of
             Inl p \<Rightarrow> Inl p
           | Inr (rest', frs, n) \<Rightarrow> Inr (emptyNode # rest', 0 # frs, Suc n))
      | leafNode k v \<Rightarrow>
          if idx \<ge> nodeWidth tc then Inl IndexOutOfRange
          else (case hashToFr B (sha256 B (k @ sliceBytes v)) (modulus tc) of
                  Inl p \<Rightarrow> Inl p
                | Inr fr \<Rightarrow>
                    (case ComputeCommitment_children B tc rest (Suc idx) of
                       Inl p \<Rightarrow> Inl p
                     | Inr (rest', frs, n) \<Rightarrow> Inr (childC # rest', fr # frs, n)))
      | hashedNode h c \<Rightarrow>
          if idx \<ge> nodeWidth tc then Inl IndexOutOfRange
          else (case hashToFr B h (modulus tc) of
                  Inl p \<Rightarrow> Inl p
                | Inr fr \<Rightarrow>
                    (case ComputeCommitment_children B tc rest (Suc idx) of
                       Inl p \<Rightarrow> Inl p
                     | Inr (rest', frs, n) \<Rightarrow> Inr (childC # rest', fr # frs, n)))
      | _ \<Rightarrow>
          if idx \<ge> nodeWidth tc then Inl IndexOutOfRange
          else (case ComputeCommitment B childC of
                  Inl p \<Rightarrow> Inl p
                | Inr (child', comm) \<Rightarrow>
                    (case hashToFr B (sha256 B (ToCompressedG1 B comm)) (modulus tc) of
                       Inl p \<Rightarrow> Inl p
                     | Inr fr \<Rightarrow>
                         (case ComputeCommitment_children B tc rest (Suc idx) of
                            Inl p \<Rightarrow> Inl p
                          | Inr (rest', frs, n) \<Rightarrow> Inr (child' # rest', fr # frs, n)))))"

section \<open>stateless.go: the stateless tree\<close>

subsection \<open>Data\<close>

text \<open>
  \<open>Point\<close> and \<open>Fr\<close> are again a group \<open>'g\<close> and a ring \<open>'f\<close>. A field of type \<open>*Point\<close>
  or \<open>*Fr\<close> is an option (\<open>None\<close> is nil). A Go map \<open>map[byte]T\<close> is a partial function
  on bytes. For the maps \<open>children\<close> and \<open>values\<close> the source distinguishes the nil map
  from an empty one, so these two fields are options of maps; \<open>unresolved\<close> and \<open>cow\<close> are
  only read, ranged over, deleted from, or allocated before the first write, where a
  nil map behaves as the empty map. An entry of \<open>children\<close> may hold the nil interface
  value and an entry of \<open>values\<close> a nil slice, hence the inner options. The
  functions modelled here read a nil entry of \<open>unresolved\<close> or \<open>cow\<close> like a missing one
  (\<open>n.unresolved[nChild] == nil\<close>, \<open>n.cow[index] == nil\<close>) and write no nil entry, so
  these two maps have no inner option.
\<close>

record ('g, 'f) sfields =
  unresolved :: "byte \<rightharpoonup> bytes"
  "values" :: "(byte \<rightharpoonup> bytes option) option"
  stem :: bytes
  depth :: byte
  count :: "64 word"
  hash :: "'f option"
  cow :: "byte \<rightharpoonup> 'g"
  commitment :: "'g option"
  c1 :: "'g option"
  c2 :: "'g option"

text \<open>
  The interface \<open>VerkleNode\<close> as stateless.go uses it. \<open>LeafNode\<close> and \<open>InternalNode\<close>
  (here \<open>InternalNode_ext\<close>, the stateful internal node with \<open>InsertStem\<close>) are declared
  outside the two source files: their representations are the type parameters \<open>'l\<close>
  and \<open>'i\<close>. \<open>HashedNode\<close> has the two fields that stateless.go initialises.
\<close>

datatype ('g, 'f, 'l, 'i) vnode =
    Empty
  | HashedNode (hashed_commitment: bytes) (cachedPoint: "'g option")
  | LeafNode 'l
  | InternalNode_ext 'i
  | StatelessNode
      (children: "(byte \<Rightarrow> ('g, 'f, 'l, 'i) vnode option option) option")
      (fields: "('g, 'f) sfields")

type_synonym ('g, 'f, 'l, 'i) children = "(byte \<Rightarrow> ('g, 'f, 'l, 'i) vnode option option) option"
type_synonym ('g, 'f, 'l, 'i) snode = "('g, 'f, 'l, 'i) children \<times> ('g, 'f) sfields"
type_synonym resolver = "bytes \<Rightarrow> error + bytes"

record ('g, 'f) ProofElements =
  Cis :: "'g option list"
  Zis :: bytes
  Yis :: "'f list"
  ByPath :: "bytes \<rightharpoonup> 'g option"

text \<open>
  Everything stateless.go calls and does not define: the curve operations, the
  configuration, the parser, and the methods of the node types declared elsewhere.
  They are parameters of the model. \<open>ext_Commitment\<close>, \<open>ext_Commit\<close> and \<open>ext_Get\<close> are
  the interface methods \<open>Commitment\<close>, \<open>Commit\<close> and \<open>Get\<close> of \<open>Empty\<close>, \<open>HashedNode\<close>,
  \<open>LeafNode\<close> and \<open>InternalNode\<close>.
\<close>

record ('g, 'f, 'l, 'i) ops =
  toFr :: "'g \<Rightarrow> 'f"
  leafToComms :: "bytes option \<Rightarrow> panic + ('f \<times> 'f)"
  StemFromBytes :: "bytes \<Rightarrow> 'f"
  SRS :: "'g list"
  ScalarMul :: "'g \<Rightarrow> 'f \<Rightarrow> 'g"
  CommitToPoly :: "'f list \<Rightarrow> int \<Rightarrow> 'g"
  equalPaths :: "bytes \<Rightarrow> bytes \<Rightarrow> bool"
  ParseStatelessNode :: "bytes \<Rightarrow> byte \<Rightarrow> bytes \<Rightarrow> error + ('g, 'f, 'l, 'i) vnode"
  NewLeafNode :: "bytes \<Rightarrow> bytes option list \<Rightarrow> 'l"
  LeafNode_stem :: "'l \<Rightarrow> bytes"
  LeafNode_depth :: "'l \<Rightarrow> byte"
  LeafNode_setDepth :: "'l \<Rightarrow> byte \<Rightarrow> 'l"
  LeafNode_updateMultipleLeaves :: "'l \<Rightarrow> bytes option list \<Rightarrow> panic + 'l"
  InternalNode_InsertStem ::
    "'i \<Rightarrow> bytes \<Rightarrow> bytes option list \<Rightarrow> resolver \<Rightarrow> panic + ('i \<times> error option)"
  ext_Commitment :: "('g, 'f, 'l, 'i) vnode \<Rightarrow> panic + 'g option"
  ext_Commit :: "('g, 'f, 'l, 'i) vnode \<Rightarrow> panic + (('g, 'f, 'l, 'i) vnode \<times> 'g option)"
  ext_Get ::
    "('g, 'f, 'l, 'i) vnode \<Rightarrow> bytes \<Rightarrow> resolver
       \<Rightarrow> panic + (('g, 'f, 'l, 'i) vnode \<times> bytes option \<times> error option)"
  Merge :: "('g, 'f) ProofElements \<Rightarrow> ('g, 'f) ProofElements \<Rightarrow> ('g, 'f) ProofElements"

text \<open>
  Modelled from the spec: the constant \<open>NodeWidth\<close> is not defined in the two source
  files; the spec gives \<open>node_width = 256\<close>, the number that stateless.go itself writes
  next to it (\<open>var children [256]VerkleNode\<close>, \<open>empty := 256\<close>, ``expecting a 256 leaf
  values'').
\<close>

definition NodeWidth :: nat where
  "NodeWidth = 256"

text \<open>
  Modelled from the spec: \<open>Generator()\<close> is not defined in the two source files. The
  spec names the value installed by the calls \<open>Generator()\<close> of stateless.go the group
  identity (a fresh root ``commits to the group identity''; the copy-on-write slot of
  a moved leaf ``starts at the group identity''), as do the comments next to them in
  the source (``manually set the commitment to 0'').
\<close>

definition Generator :: "'g::zero" where
  "Generator = 0"

text \<open>
  Modelled from the spec: \<open>offset2key(key, depth)\<close> of the stateless tree is not defined
  in the two source files; the spec gives \<open>nChild = stem[depth]\<close>.
\<close>

definition offset2key :: "bytes \<Rightarrow> byte \<Rightarrow> panic + byte" where
  "offset2key key d = (if unat d < length key then Inr (key ! unat d) else Inl IndexOutOfRange)"

definition len :: "bytes option \<Rightarrow> nat" where
  "len v = length (sliceBytes v)"

definition bytesEqual :: "bytes option \<Rightarrow> bytes option \<Rightarrow> bool" where
  "bytesEqual a b = (sliceBytes a = sliceBytes b)"

text \<open>Reading a map: a nil map and a missing key both give the zero value (nil).\<close>

definition lookupChild :: "('g, 'f, 'l, 'i) children \<Rightarrow> byte \<Rightarrow> ('g, 'f, 'l, 'i) vnode option" where
  "lookupChild ch i = (case ch of None \<Rightarrow> None | Some m \<Rightarrow> (case m i of None \<Rightarrow> None | Some c \<Rightarrow> c))"

definition lookupValue :: "('g, 'f) sfields \<Rightarrow> byte \<Rightarrow> bytes option" where
  "lookupValue s i =
     (case values s of None \<Rightarrow> None | Some m \<Rightarrow> (case m i of None \<Rightarrow> None | Some v \<Rightarrow> v))"

text \<open>Writing a map entry: a write to a nil map panics.\<close>

definition setChild ::
  "('g, 'f, 'l, 'i) children \<Rightarrow> byte \<Rightarrow> ('g, 'f, 'l, 'i) vnode option
     \<Rightarrow> panic + ('g, 'f, 'l, 'i) children" where
  "setChild ch i c = (case ch of None \<Rightarrow> Inl NilMapWrite | Some m \<Rightarrow> Inr (Some (m(i \<mapsto> c))))"

definition setValue :: "('g, 'f) sfields \<Rightarrow> byte \<Rightarrow> bytes option \<Rightarrow> panic + ('g, 'f) sfields" where
  "setValue s i v =
     (case values s of None \<Rightarrow> Inl NilMapWrite
                     | Some m \<Rightarrow> Inr (s\<lparr>values := Some (m(i \<mapsto> v))\<rparr>))"

text \<open>
  The keys of a map in increasing order: what the source obtains by collecting the
  keys and sorting them. \<open>lenMap\<close> is \<open>len(m)\<close>.
\<close>

definition allBytes :: "byte list" where
  "allBytes = map of_nat [0..<256]"

definition sortedKeys :: "(byte \<rightharpoonup> 'a) \<Rightarrow> byte list" where
  "sortedKeys m = filter (\<lambda>i. m i \<noteq> None) allBytes"

definition lenMap :: "(byte \<rightharpoonup> 'a) \<Rightarrow> nat" where
  "lenMap m = length (sortedKeys m)"

definition lenValues :: "('g, 'f) sfields \<Rightarrow> nat" where
  "lenValues s = (case values s of None \<Rightarrow> 0 | Some m \<Rightarrow> lenMap m)"

definition lenChildren :: "('g, 'f, 'l, 'i) children \<Rightarrow> nat" where
  "lenChildren ch = (case ch of None \<Rightarrow> 0 | Some m \<Rightarrow> lenMap m)"

subsection \<open>Construction\<close>

definition NewStateless :: "('g::zero, 'f::zero, 'l, 'i) snode" where
  "NewStateless =
     (Some Map.empty,
      \<lparr>unresolved = Map.empty, values = None, stem = [], depth = 0, count = 0,
       hash = Some 0, cow = Map.empty, commitment = Some Generator, c1 = None, c2 = None\<rparr>)"

definition Commitment :: "('g, 'f, 'l, 'i) ops \<Rightarrow> ('g, 'f, 'l, 'i) vnode \<Rightarrow> panic + 'g option" where
  "Commitment ops n = (case n of StatelessNode ch s \<Rightarrow> Inr (commitment s) | _ \<Rightarrow> ext_Commitment ops n)"

subsection \<open>Leaf updates\<close>

text \<open>
  A local variable of type \<open>*Point\<close> that holds \<open>n.c1\<close> or \<open>n.c2\<close> is an alias of that
  field: \<open>updateCn\<close> writes through it. The model keeps which of the two fields the
  pointer addresses. \<open>toFr\<close> and the point arithmetic read through their pointer
  arguments, so a nil pointer there is a panic.
\<close>

datatype cref = RefC1 | RefC2

definition deref :: "('g, 'f) sfields \<Rightarrow> cref \<Rightarrow> 'g option" where
  "deref s r = (case r of RefC1 \<Rightarrow> c1 s | RefC2 \<Rightarrow> c2 s)"

definition assign :: "('g, 'f) sfields \<Rightarrow> cref \<Rightarrow> 'g \<Rightarrow> ('g, 'f) sfields" where
  "assign s r p = (case r of RefC1 \<Rightarrow> s\<lparr>c1 := Some p\<rparr> | RefC2 \<Rightarrow> s\<lparr>c2 := Some p\<rparr>)"

definition srs :: "('g, 'f, 'l, 'i) ops \<Rightarrow> nat \<Rightarrow> panic + 'g" where
  "srs ops i = (if i < length (SRS ops) then Inr (SRS ops ! i) else Inl IndexOutOfRange)"

definition getOldCn :: "('g, 'f, 'l, 'i) ops \<Rightarrow> ('g, 'f) sfields \<Rightarrow> byte \<Rightarrow> panic + (cref \<times> 'f)" where
  "getOldCn ops s index =
     (let c = (if index < 128 then RefC1 else RefC2)
      in case deref s c of
           None \<Rightarrow> Inl NilDereference
         | Some p \<Rightarrow> Inr (c, toFr ops p))"

definition updateC ::
  "('g::ab_group_add, 'f::ab_group_add, 'l, 'i) ops \<Rightarrow> ('g, 'f) sfields \<Rightarrow> byte \<Rightarrow> cref \<Rightarrow> 'f
     \<Rightarrow> panic + ('g, 'f) sfields" where
  "updateC ops s index c oldc =
     (case deref s c of
        None \<Rightarrow> Inl NilDereference
      | Some p \<Rightarrow>
          let newc = toFr ops p - oldc
          in (case srs ops (2 + unat (index div 128)) of
                Inl e \<Rightarrow> Inl e
              | Inr g \<Rightarrow>
                  (case commitment s of
                     None \<Rightarrow> Inl NilDereference
                   | Some cm \<Rightarrow> Inr (s\<lparr>commitment := Some (cm + ScalarMul ops g newc)\<rparr>))))"

definition updateCn ::
  "('g::ab_group_add, 'f::ab_group_add, 'l, 'i) ops \<Rightarrow> ('g, 'f) sfields \<Rightarrow> byte \<Rightarrow> bytes option
     \<Rightarrow> cref \<Rightarrow> panic + ('g, 'f) sfields" where
  "updateCn ops s index v c =
     (case leafToComms ops (lookupValue s index) of
        Inl e \<Rightarrow> Inl e
      | Inr (old0, old1) \<Rightarrow>
          (case leafToComms ops v of
             Inl e \<Rightarrow> Inl e
           | Inr (new0, new1) \<Rightarrow>
               (case srs ops (unat (2 * (index mod 128))) of
                  Inl e \<Rightarrow> Inl e
                | Inr g0 \<Rightarrow>
                    (case deref s c of
                       None \<Rightarrow> Inl NilDereference
                     | Some p \<Rightarrow>
                         (case srs ops (unat (2 * (index mod 128) + 1)) of
                            Inl e \<Rightarrow> Inl e
                          | Inr g1 \<Rightarrow>
                              Inr (assign s c
                                     (p + ScalarMul ops g0 (new0 - old0)
                                        + ScalarMul ops g1 (new1 - old1))))))))"

text \<open>
  The loop of \<open>updateMultipleLeaves\<close> over \<open>values\<close>, with the loop index \<open>i\<close> (an
  \<open>int\<close>; \<open>byte(i)\<close> wraps) and the locals \<open>c1, old1\<close> and \<open>c2, old2\<close>.
\<close>

fun updateMultipleLeaves_loop ::
  "('g::ab_group_add, 'f::ab_group_add, 'l, 'i) ops \<Rightarrow> ('g, 'f) sfields \<Rightarrow> bytes option list \<Rightarrow> nat
     \<Rightarrow> (cref \<times> 'f) option \<Rightarrow> (cref \<times> 'f) option
     \<Rightarrow> panic + (('g, 'f) sfields \<times> (cref \<times> 'f) option \<times> (cref \<times> 'f) option)" where
  "updateMultipleLeaves_loop ops s [] i l1 l2 = Inr (s, l1, l2)"
| "updateMultipleLeaves_loop ops s (v # vs) i l1 l2 =
     (if len v \<noteq> 0 \<and> \<not> bytesEqual v (lookupValue s (of_nat i))
      then
        (if i < 128
         then
           (case (case l1 of None \<Rightarrow> getOldCn ops s (of_nat i) | Some x \<Rightarrow> Inr x) of
              Inl e \<Rightarrow> Inl e
            | Inr x \<Rightarrow>
                (case updateCn ops s (of_nat i) v (fst x) of
                   Inl e \<Rightarrow> Inl e
                 | Inr s' \<Rightarrow>
                     (case setValue s' (of_nat i) v of
                        Inl e \<Rightarrow> Inl e
                      | Inr s'' \<Rightarrow> updateMultipleLeaves_loop ops s'' vs (Suc i) (Some x) l2)))
         else
           (case (case l2 of None \<Rightarrow> getOldCn ops s (of_nat i) | Some x \<Rightarrow> Inr x) of
              Inl e \<Rightarrow> Inl e
            | Inr x \<Rightarrow>
                (case updateCn ops s (of_nat i) v (fst x) of
                   Inl e \<Rightarrow> Inl e
                 | Inr s' \<Rightarrow>
                     (case setValue s' (of_nat i) v of
                        Inl e \<Rightarrow> Inl e
                      | Inr s'' \<Rightarrow> updateMultipleLeaves_loop ops s'' vs (Suc i) l1 (Some x)))))
      else updateMultipleLeaves_loop ops s vs (Suc i) l1 l2)"

definition updateMultipleLeaves ::
  "('g::ab_group_add, 'f::ab_group_add, 'l, 'i) ops \<Rightarrow> ('g, 'f) sfields \<Rightarrow> bytes option list
     \<Rightarrow> panic + ('g, 'f) sfields" where
  "updateMultipleLeaves ops s vs =
     (case updateMultipleLeaves_loop ops s vs 0 None None of
        Inl e \<Rightarrow> Inl e
      | Inr (s', l1, l2) \<Rightarrow>
          (case (case l1 of None \<Rightarrow> Inr s' | Some (c, old1) \<Rightarrow> updateC ops s' 0 c old1) of
             Inl e \<Rightarrow> Inl e
           | Inr s'' \<Rightarrow>
               (case l2 of None \<Rightarrow> Inr s'' | Some (c, old2) \<Rightarrow> updateC ops s'' 128 c old2)))"

subsection \<open>Copy on write\<close>

text \<open>
  \<open>cowChild\<close>: \<open>new(Point)\<close> followed by \<open>CopyPoint\<close> stores a copy of the value of the
  child's commitment, so the entry of \<open>cow\<close> is that value.
\<close>

definition cowChild ::
  "('g, 'f, 'l, 'i) ops \<Rightarrow> ('g, 'f, 'l, 'i) snode \<Rightarrow> byte \<Rightarrow> panic + ('g, 'f, 'l, 'i) snode" where
  "cowChild ops n index =
     (case fst n of
        None \<Rightarrow> Inr n
      | Some m \<Rightarrow>
          (case cow (snd n) index of
             Some p \<Rightarrow> Inr n
           | None \<Rightarrow>
               (case lookupChild (fst n) index of
                  None \<Rightarrow> Inl NilDereference
                | Some child \<Rightarrow>
                    (case Commitment ops child of
                       Inl e \<Rightarrow> Inl e
                     | Inr None \<Rightarrow> Inl NilDereference
                     | Inr (Some p) \<Rightarrow> Inr (fst n, (snd n)\<lparr>cow := (cow (snd n))(index \<mapsto> p)\<rparr>)))))"

subsection \<open>InsertAtStem, Insert and Delete\<close>

definition newLeafChildFromMultipleValues ::
  "('g, 'f, 'l, 'i) ops \<Rightarrow> ('g, 'f) sfields \<Rightarrow> bytes \<Rightarrow> bytes option list
     \<Rightarrow> panic + ('g, 'f, 'l, 'i) vnode" where
  "newLeafChildFromMultipleValues ops s st vs =
     (if length vs \<noteq> 256 then Inl (PanicMsg ''expecting a 256 leaf values'')
      else (case ext_Commit ops
                   (LeafNode (LeafNode_setDepth ops (NewLeafNode ops st vs) (depth s + 1))) of
              Inl e \<Rightarrow> Inl e
            | Inr (newchild, _) \<Rightarrow> Inr newchild))"

text \<open>
  The branch node that \<open>InsertAtStem\<close> puts above a leaf with another stem. The leaf it
  holds is the moved child, whose depth has been increased by one.
\<close>

definition newbranch ::
  "('g, 'f, 'l, 'i) ops \<Rightarrow> 'l \<Rightarrow> byte \<Rightarrow> ('g::zero, 'f, 'l, 'i) snode" where
  "newbranch ops child nextexisting =
     (Some [nextexisting \<mapsto>
              Some (LeafNode (LeafNode_setDepth ops child (LeafNode_depth ops child + 1)))],
      \<lparr>unresolved = Map.empty, values = None, stem = [], depth = LeafNode_depth ops child,
       count = 0, hash = None, cow = [nextexisting \<mapsto> Generator],
       commitment = Some Generator, c1 = None, c2 = None\<rparr>)"

text \<open>
  The first part of \<open>InsertAtStem\<close> on an internal node, up to the call
  \<open>n.cowChild(nChild)\<close> that precedes the type switch: the missing child, and the
  resolution of a hashed child. The result is either the state and error of an early
  \<open>return\<close> (\<open>Inl\<close>), or the state with which the function goes on (\<open>Inr\<close>).
\<close>

definition installChild ::
  "('g::zero, 'f, 'l, 'i) ops \<Rightarrow> ('g, 'f, 'l, 'i) snode \<Rightarrow> byte \<Rightarrow> bytes \<Rightarrow> bytes option list
     \<Rightarrow> panic + ((('g, 'f, 'l, 'i) snode \<times> error option) + ('g, 'f, 'l, 'i) snode)" where
  "installChild ops n nChild st vs =
     (case lookupChild (fst n) nChild of
        Some c \<Rightarrow> Inr (Inr n)
      | None \<Rightarrow>
          let u = (case unresolved (snd n) nChild of None \<Rightarrow> [] | Some u \<Rightarrow> u)
          in if length u = 0 then
               (case setChild (fst n) nChild (Some Empty) of
                  Inl e \<Rightarrow> Inl e
                | Inr ch1 \<Rightarrow>
                    (case cowChild ops (ch1, snd n) nChild of
                       Inl e \<Rightarrow> Inl e
                     | Inr n2 \<Rightarrow>
                         (case newLeafChildFromMultipleValues ops (snd n2) st vs of
                            Inl e \<Rightarrow> Inl e
                          | Inr newchild \<Rightarrow>
                              (case setChild (fst n2) nChild (Some newchild) of
                                 Inl e \<Rightarrow> Inl e
                               | Inr ch3 \<Rightarrow> Inr (Inl ((ch3, snd n2), None))))))
             else
               (case setChild (fst n) nChild (Some (HashedNode u None)) of
                  Inl e \<Rightarrow> Inl e
                | Inr ch1 \<Rightarrow> Inr (Inr (ch1, snd n))))"

definition resolveChild ::
  "('g, 'f, 'l, 'i) ops \<Rightarrow> ('g, 'f, 'l, 'i) snode \<Rightarrow> byte \<Rightarrow> bytes \<Rightarrow> resolver
     \<Rightarrow> panic + ((('g, 'f, 'l, 'i) snode \<times> error option) + ('g, 'f, 'l, 'i) snode)" where
  "resolveChild ops n nChild st resolver =
     (case lookupChild (fst n) nChild of
        Some (HashedNode comm cp) \<Rightarrow>
          (case resolver comm of
             Inl err \<Rightarrow>
               Inr (Inl (n, Some (fmtErrorf_x_w ''stem insertion failed (node resolution error)''
                                    st err)))
           | Inr serialized \<Rightarrow>
               (case ParseStatelessNode ops serialized (depth (snd n) + 1) comm of
                  Inl err \<Rightarrow> Inr (Inl (n, Some err))
                | Inr node \<Rightarrow>
                    (case setChild (fst n) nChild (Some node) of
                       Inl e \<Rightarrow> Inl e
                     | Inr ch1 \<Rightarrow> Inr (Inr (ch1, snd n)))))
      | _ \<Rightarrow> Inr (Inr n))"

text \<open>
  \<open>InsertAtStem\<close>. The recursion follows nodes that the resolver and the parser
  produce, so it is not structural: the first argument bounds the number of nested
  calls, and \<open>None\<close> is the answer of a call that would exceed it.
\<close>

fun InsertAtStem ::
  "nat \<Rightarrow> ('g::ab_group_add, 'f::ab_group_add, 'l, 'i) ops \<Rightarrow> ('g, 'f, 'l, 'i) snode \<Rightarrow> bytes
     \<Rightarrow> bytes option list \<Rightarrow> resolver
     \<Rightarrow> (panic + (('g, 'f, 'l, 'i) snode \<times> error option)) option" where
  "InsertAtStem 0 ops n st vs resolver = None"
| "InsertAtStem (Suc fuel) ops n st vs resolver =
     (case offset2key st (depth (snd n)) of
        Inl e \<Rightarrow> Some (Inl e)
      | Inr nChild \<Rightarrow>
          if values (snd n) \<noteq> None then
            (case updateMultipleLeaves ops (snd n) vs of
               Inl e \<Rightarrow> Some (Inl e)
             | Inr s' \<Rightarrow> Some (Inr ((fst n, s'), None)))
          else
            (case installChild ops n nChild st vs of
               Inl e \<Rightarrow> Some (Inl e)
             | Inr (Inl ret) \<Rightarrow> Some (Inr ret)
             | Inr (Inr n1) \<Rightarrow>
                 (case resolveChild ops n1 nChild st resolver of
                    Inl e \<Rightarrow> Some (Inl e)
                  | Inr (Inl ret) \<Rightarrow> Some (Inr ret)
                  | Inr (Inr n2) \<Rightarrow>
                      (case cowChild ops n2 nChild of
                         Inl e \<Rightarrow> Some (Inl e)
                       | Inr n3 \<Rightarrow>
                           (case lookupChild (fst n3) nChild of
                              Some (InternalNode_ext child) \<Rightarrow>
                                (case InternalNode_InsertStem ops child st vs resolver of
                                   Inl e \<Rightarrow> Some (Inl e)
                                 | Inr (child', err) \<Rightarrow>
                                     (case ext_Commit ops (InternalNode_ext child') of
                                        Inl e \<Rightarrow> Some (Inl e)
                                      | Inr (child'', _) \<Rightarrow>
                                          (case setChild (fst n3) nChild (Some child'') of
                                             Inl e \<Rightarrow> Some (Inl e)
                                           | Inr ch4 \<Rightarrow> Some (Inr ((ch4, snd n3), err)))))
                            | Some (StatelessNode cch cs) \<Rightarrow>
                                (case InsertAtStem fuel ops (cch, cs) st vs resolver of
                                   None \<Rightarrow> None
                                 | Some (Inl e) \<Rightarrow> Some (Inl e)
                                 | Some (Inr (child', err)) \<Rightarrow>
                                     (case setChild (fst n3) nChild
                                             (Some (StatelessNode (fst child') (snd child'))) of
                                        Inl e \<Rightarrow> Some (Inl e)
                                      | Inr ch4 \<Rightarrow> Some (Inr ((ch4, snd n3), err))))
                            | Some (LeafNode child) \<Rightarrow>
                                if equalPaths ops (LeafNode_stem ops child) st then
                                  (case LeafNode_updateMultipleLeaves ops child vs of
                                     Inl e \<Rightarrow> Some (Inl e)
                                   | Inr child' \<Rightarrow>
                                       (case setChild (fst n3) nChild (Some (LeafNode child')) of
                                          Inl e \<Rightarrow> Some (Inl e)
                                        | Inr ch4 \<Rightarrow> Some (Inr ((ch4, snd n3), None))))
                                else
                                  (case offset2key (LeafNode_stem ops child)
                                          (LeafNode_depth ops child) of
                                     Inl e \<Rightarrow> Some (Inl e)
                                   | Inr nextexisting \<Rightarrow>
                                       (case InsertAtStem fuel ops
                                               (newbranch ops child nextexisting) st vs resolver of
                                          None \<Rightarrow> None
                                        | Some (Inl e) \<Rightarrow> Some (Inl e)
                                        | Some (Inr (nb', err)) \<Rightarrow>
                                            (case setChild (fst n3) nChild
                                                    (Some (StatelessNode (fst nb') (snd nb'))) of
                                               Inl e \<Rightarrow> Some (Inl e)
                                             | Inr ch4 \<Rightarrow>
                                                 Some (Inr ((ch4,
                                                   (snd n3)\<lparr>count := count (snd n3) + 1\<rparr>),
                                                   err)))))
                            | _ \<Rightarrow> Some (Inr (n3, Some errNotSupportedInStateless)))))))"

text \<open>More fuel never changes an answer of \<open>InsertAtStem\<close>.\<close>

lemma InsertAtStem_fuel_mono:
  "InsertAtStem f ops n st vs g = Some r \<Longrightarrow> InsertAtStem (Suc f) ops n st vs g = Some r"
proof (induction f arbitrary: n r)
  case 0
  then show ?case by simp
next
  case (Suc f)
  note prem = Suc.prems
  note unf = InsertAtStem.simps(2) [of "Suc f" ops n st vs g] InsertAtStem.simps(2) [of f ops n st vs g]
  show ?case
  proof (cases "offset2key st (depth (snd n))")
    case (Inl e)
    with prem show ?thesis by simp
  next
    case nChild: (Inr nChild)
    show ?thesis
    proof (cases "values (snd n) \<noteq> None")
      case True
      with prem nChild show ?thesis by (simp split: sum.splits)
    next
      case leafless: False
      show ?thesis
      proof (cases "installChild ops n nChild st vs")
        case (Inl e)
        with prem nChild leafless show ?thesis by simp
      next
        case i1: (Inr x1)
        show ?thesis
        proof (cases x1)
          case (Inl ret)
          with prem nChild leafless i1 show ?thesis by simp
        next
          case n1: (Inr n1)
          show ?thesis
          proof (cases "resolveChild ops n1 nChild st g")
            case (Inl e)
            with prem nChild leafless i1 n1 show ?thesis by simp
          next
            case i2: (Inr x2)
            show ?thesis
            proof (cases x2)
              case (Inl ret)
              with prem nChild leafless i1 n1 i2 show ?thesis by simp
            next
              case n2: (Inr n2)
              show ?thesis
              proof (cases "cowChild ops n2 nChild")
                case (Inl e)
                with prem nChild leafless i1 n1 i2 n2 show ?thesis by simp
              next
                case n3: (Inr n3)
                note ctx = nChild leafless i1 n1 i2 n2 n3
                show ?thesis
                proof (cases "lookupChild (fst n3) nChild")
                  case None
                  with prem ctx show ?thesis by simp
                next
                  case child: (Some child)
                  show ?thesis
                  proof (cases child)
                    case (StatelessNode cch cs)
                    show ?thesis
                    proof (cases "InsertAtStem f ops (cch, cs) st vs g")
                      case None
                      with prem ctx child StatelessNode show ?thesis by simp
                    next
                      case (Some a)
                      from Suc.IH [OF this]
                      have "InsertAtStem (Suc f) ops (cch, cs) st vs g = Some a" .
                      with Some prem ctx child StatelessNode show ?thesis
                        by (simp del: InsertAtStem.simps add: unf)
                    qed
                  next
                    case (LeafNode l)
                    show ?thesis
                    proof (cases "equalPaths ops (LeafNode_stem ops l) st")
                      case True
                      with prem ctx child LeafNode show ?thesis by simp
                    next
                      case False
                      show ?thesis
                      proof (cases "offset2key (LeafNode_stem ops l) (LeafNode_depth ops l)")
                        case (Inl e)
                        with prem ctx child LeafNode False show ?thesis by simp
                      next
                        case ne: (Inr nextexisting)
                        show ?thesis
                        proof (cases "InsertAtStem f ops (newbranch ops l nextexisting) st vs g")
                          case None
                          with prem ctx child LeafNode False ne show ?thesis by simp
                        next
                          case (Some a)
                          from Suc.IH [OF this]
                          have "InsertAtStem (Suc f) ops (newbranch ops l nextexisting) st vs g
                                  = Some a" .
                          with Some prem ctx child LeafNode False ne show ?thesis
                            by (simp del: InsertAtStem.simps add: unf)
                        qed
                      qed
                    qed
                  qed (use prem ctx child in simp_all)
                qed
              qed
            qed
          qed
        qed
      qed
    qed
  qed
qed

definition StatelessNode_Insert ::
  "nat \<Rightarrow> ('g::ab_group_add, 'f::ab_group_add, 'l, 'i) ops \<Rightarrow> ('g, 'f, 'l, 'i) snode \<Rightarrow> bytes
     \<Rightarrow> bytes option \<Rightarrow> resolver \<Rightarrow> (panic + (('g, 'f, 'l, 'i) snode \<times> error option)) option" where
  "StatelessNode_Insert fuel ops n key v resolver =
     (if length key \<le> 31 then Some (Inl IndexOutOfRange)
      else InsertAtStem fuel ops n (take 31 key)
             ((replicate NodeWidth None)[unat (key ! 31) := v]) resolver)"

definition Delete ::
  "nat \<Rightarrow> ('g::ab_group_add, 'f::ab_group_add, 'l, 'i) ops \<Rightarrow> ('g, 'f, 'l, 'i) snode \<Rightarrow> bytes
     \<Rightarrow> resolver \<Rightarrow> (panic + (('g, 'f, 'l, 'i) snode \<times> error option)) option" where
  "Delete fuel ops n key resolver =
     StatelessNode_Insert fuel ops n key (Some (replicate 32 0)) resolver"

subsection \<open>Structural recursion over the children\<close>

text \<open>
  \<open>insertValue\<close>, \<open>Commit\<close> and \<open>GetProofItems\<close> recurse into children of the receiver
  only, so they are primitive recursive. The body of each is a definition of its own
  that receives, next to the map \<open>n.children\<close>, the recursive call on each child:
  \<open>call i\<close> is the method applied to \<open>n.children[i]\<close>, and \<open>None\<close> where that child is
  missing or nil. In the primitive recursion the children come paired with the
  recursive call on them; \<open>childrenOf\<close> and \<open>callOf\<close> are the two projections.
\<close>

definition childrenOf ::
  "(byte \<Rightarrow> ('n \<times> 'r) option option) option \<Rightarrow> (byte \<Rightarrow> 'n option option) option" where
  "childrenOf rc = map_option (\<lambda>m. map_option (map_option fst) \<circ> m) rc"

definition callOf :: "(byte \<Rightarrow> ('n \<times> 'r) option option) option \<Rightarrow> byte \<Rightarrow> 'r option" where
  "callOf rc i =
     (case rc of
        None \<Rightarrow> None
      | Some m \<Rightarrow> (case m i of Some (Some (c, call)) \<Rightarrow> Some call | _ \<Rightarrow> None))"

lemma childrenOf_paired:
  "childrenOf (map_option (\<lambda>m. map_option (map_option (\<lambda>c. (c, f c))) \<circ> m) ch) = ch"
  by (cases ch) (auto simp: childrenOf_def option.map_comp comp_def option.map_ident)

lemma callOf_paired:
  "callOf (map_option (\<lambda>m. map_option (map_option (\<lambda>c. (c, f c))) \<circ> m) ch) =
     (\<lambda>i. map_option f (lookupChild ch i))"
  by (rule ext) (auto simp: callOf_def lookupChild_def split: option.splits)

subsection \<open>insertValue\<close>

text \<open>
  The type assertion \<open>n.children[nChild].(*StatelessNode)\<close> panics on a child of another
  type. The result of the recursive call is dropped by the source.
\<close>

definition insertValue_body ::
  "(byte \<Rightarrow> (bytes \<Rightarrow> bytes option \<Rightarrow> panic + (('g, 'f, 'l, 'i) vnode \<times> error option)) option)
     \<Rightarrow> ('g, 'f, 'l, 'i) children \<Rightarrow> ('g, 'f) sfields \<Rightarrow> bytes \<Rightarrow> bytes option
     \<Rightarrow> panic + (('g, 'f, 'l, 'i) vnode \<times> error option)" where
  "insertValue_body call ch s key v =
     (if lenChildren ch = 0 then
        (if length key < 31 then Inl IndexOutOfRange
         else if take 31 key \<noteq> stem s then Inr (StatelessNode ch s, Some errInsertIntoOtherStem)
         else if length key \<le> 31 then Inl IndexOutOfRange
         else (case setValue s (key ! 31) v of
                 Inl e \<Rightarrow> Inl e
               | Inr s' \<Rightarrow> Inr (StatelessNode ch s', None)))
      else
        (case offset2key key (depth s) of
           Inl e \<Rightarrow> Inl e
         | Inr nChild \<Rightarrow>
             (case lookupChild ch nChild of
                None \<Rightarrow>
                  if len v \<noteq> 0 then Inl (PanicMsg ''inserting non-nil value into nil node'')
                  else Inr (StatelessNode ch s, None)
              | Some (StatelessNode cch cs) \<Rightarrow>
                  (case call nChild of
                     None \<Rightarrow> Inl NilDereference
                   | Some insertValue_child \<Rightarrow>
                       (case insertValue_child key v of
                          Inl e \<Rightarrow> Inl e
                        | Inr (child', _) \<Rightarrow>
                            (case setChild ch nChild (Some child') of
                               Inl e \<Rightarrow> Inl e
                             | Inr ch' \<Rightarrow> Inr (StatelessNode ch' s, None))))
              | Some _ \<Rightarrow> Inl TypeAssertion)))"

primrec (nonexhaustive) insertValue ::
  "('g, 'f, 'l, 'i) vnode \<Rightarrow> bytes \<Rightarrow> bytes option \<Rightarrow> panic + (('g, 'f, 'l, 'i) vnode \<times> error option)" where
  "insertValue (StatelessNode ch s) key v =
     insertValue_body
       (callOf (map_option (\<lambda>m. map_option (map_option (\<lambda>c. (c, insertValue c))) \<circ> m) ch))
       (childrenOf (map_option (\<lambda>m. map_option (map_option (\<lambda>c. (c, insertValue c))) \<circ> m) ch))
       s key v"

text \<open>The recursion equation of \<open>insertValue\<close>, with the recursive call in place.\<close>

lemma insertValue_StatelessNode [simp]:
  "insertValue (StatelessNode ch s) key v =
     insertValue_body (\<lambda>i. map_option insertValue (lookupChild ch i)) ch s key v"
  by (simp only: insertValue.simps childrenOf_paired callOf_paired)

declare insertValue.simps [simp del]

subsection \<open>Get\<close>

text \<open>
  \<open>Get\<close> resolves an unresolved child through the getter and the parser before it
  recurses into it, so it is bounded like \<open>InsertAtStem\<close>. It returns the node after the
  call with the pair \<open>(value, error)\<close>. \<open>Get_child\<close> is the part that determines the
  child: an early \<open>return\<close> (\<open>Inl\<close>), or the state and the child to recurse into.
\<close>

definition Get_child ::
  "('g, 'f, 'l, 'i) ops \<Rightarrow> ('g, 'f, 'l, 'i) snode \<Rightarrow> byte \<Rightarrow> resolver
     \<Rightarrow> panic + ((('g, 'f, 'l, 'i) snode \<times> bytes option \<times> error option)
                + (('g, 'f, 'l, 'i) snode \<times> ('g, 'f, 'l, 'i) vnode))" where
  "Get_child ops n nChild getter =
     (case lookupChild (fst n) nChild of
        Some child \<Rightarrow> Inr (Inr (n, child))
      | None \<Rightarrow>
          (case unresolved (snd n) nChild of
             None \<Rightarrow> Inr (Inl (n, None, None))
           | Some u \<Rightarrow>
               (case getter u of
                  Inl err \<Rightarrow>
                    Inr (Inl (n, None,
                              Some (fmtErrorf_w ''could not resolve unresolved item'' err)))
                | Inr serialized \<Rightarrow>
                    (case ParseStatelessNode ops serialized (depth (snd n) + 1) u of
                       Inl err \<Rightarrow>
                         Inr (Inl (n, None, Some (fmtErrorf_w ''could not deserialize node'' err)))
                     | Inr child \<Rightarrow>
                         (case setChild (fst n) nChild (Some child) of
                            Inl e \<Rightarrow> Inl e
                          | Inr ch1 \<Rightarrow>
                              Inr (Inr ((ch1,
                                         (snd n)\<lparr>unresolved := (unresolved (snd n))(nChild := None)\<rparr>),
                                        child)))))))"

fun StatelessNode_Get ::
  "nat \<Rightarrow> ('g, 'f, 'l, 'i) ops \<Rightarrow> ('g, 'f, 'l, 'i) snode \<Rightarrow> bytes \<Rightarrow> resolver
     \<Rightarrow> (panic + (('g, 'f, 'l, 'i) snode \<times> bytes option \<times> error option)) option" where
  "StatelessNode_Get 0 ops n k getter = None"
| "StatelessNode_Get (Suc fuel) ops n k getter =
     (if values (snd n) \<noteq> None then
        (if length k < 31 then Some (Inl IndexOutOfRange)
         else if stem (snd n) = take 31 k then
           (if length k \<le> 31 then Some (Inl IndexOutOfRange)
            else Some (Inr (n, lookupValue (snd n) (k ! 31), None)))
         else Some (Inr (n, None, None)))
      else
        (case offset2key k (depth (snd n)) of
           Inl e \<Rightarrow> Some (Inl e)
         | Inr nChild \<Rightarrow>
             (case Get_child ops n nChild getter of
                Inl e \<Rightarrow> Some (Inl e)
              | Inr (Inl ret) \<Rightarrow> Some (Inr ret)
              | Inr (Inr (n1, child)) \<Rightarrow>
                  (case child of
                     StatelessNode cch cs \<Rightarrow>
                       (case StatelessNode_Get fuel ops (cch, cs) k getter of
                          None \<Rightarrow> None
                        | Some (Inl e) \<Rightarrow> Some (Inl e)
                        | Some (Inr (child', res)) \<Rightarrow>
                            (case setChild (fst n1) nChild
                                    (Some (StatelessNode (fst child') (snd child'))) of
                               Inl e \<Rightarrow> Some (Inl e)
                             | Inr ch2 \<Rightarrow> Some (Inr ((ch2, snd n1), res))))
                   | _ \<Rightarrow>
                       (case ext_Get ops child k getter of
                          Inl e \<Rightarrow> Some (Inl e)
                        | Inr (child', res) \<Rightarrow>
                            (case setChild (fst n1) nChild (Some child') of
                               Inl e \<Rightarrow> Some (Inl e)
                             | Inr ch2 \<Rightarrow> Some (Inr ((ch2, snd n1), res))))))))"

text \<open>More fuel never changes an answer of \<open>Get\<close>.\<close>

lemma Get_fuel_mono:
  "StatelessNode_Get f ops n k g = Some r \<Longrightarrow> StatelessNode_Get (Suc f) ops n k g = Some r"
proof (induction f arbitrary: n r)
  case 0
  then show ?case by simp
next
  case (Suc f)
  note prem = Suc.prems
  show ?case
  proof (cases "values (snd n) \<noteq> None")
    case True
    with prem show ?thesis by (simp split: if_splits)
  next
    case leafless: False
    show ?thesis
    proof (cases "offset2key k (depth (snd n))")
      case (Inl e)
      with prem leafless show ?thesis by simp
    next
      case nChild: (Inr nChild)
      show ?thesis
      proof (cases "Get_child ops n nChild g")
        case (Inl e)
        with prem leafless nChild show ?thesis by simp
      next
        case (Inr x)
        show ?thesis
        proof (cases x)
          case (Inl ret)
          with prem leafless nChild Inr show ?thesis by simp
        next
          case (Inr y)
          obtain n1 child where y: "y = (n1, child)" by (cases y)
          show ?thesis
          proof (cases child)
            case (StatelessNode cch cs)
            show ?thesis
            proof (cases "StatelessNode_Get f ops (cch, cs) k g")
              case None
              with prem leafless nChild \<open>Get_child ops n nChild g = Inr x\<close> Inr y StatelessNode
              show ?thesis by simp
            next
              case (Some a)
              from Suc.IH [OF this] have "StatelessNode_Get (Suc f) ops (cch, cs) k g = Some a" .
              with Some prem leafless nChild \<open>Get_child ops n nChild g = Inr x\<close> Inr y StatelessNode
              show ?thesis by (simp del: StatelessNode_Get.simps add: StatelessNode_Get.simps(2) [of "Suc f" ops n k g] StatelessNode_Get.simps(2) [of f ops n k g])
            qed
          qed (use prem leafless nChild \<open>Get_child ops n nChild g = Inr x\<close> Inr y in simp_all)
        qed
      qed
    qed
  qed
qed

subsection \<open>Commit\<close>

text \<open>
  The loop \<open>for idx, comm := range n.cow\<close>. Each iteration reads \<open>cow[idx]\<close>, commits the
  child \<open>idx\<close> and writes \<open>poly[idx]\<close>; iterations on different keys touch different
  children and entries, and a panic in any of them ends the call, so the keys are
  visited here in increasing order.
\<close>

fun Commit_loop ::
  "('g, 'f::ab_group_add, 'l, 'i) ops
     \<Rightarrow> (byte \<Rightarrow> (panic + (('g, 'f, 'l, 'i) vnode \<times> 'g option)) option)
     \<Rightarrow> ('g, 'f) sfields \<Rightarrow> byte list \<Rightarrow> ('g, 'f, 'l, 'i) children \<Rightarrow> 'f list
     \<Rightarrow> panic + (('g, 'f, 'l, 'i) children \<times> 'f list)" where
  "Commit_loop ops call s [] ch poly = Inr (ch, poly)"
| "Commit_loop ops call s (idx # rest) ch poly =
     (case cow s idx of
        None \<Rightarrow> Commit_loop ops call s rest ch poly
      | Some comm \<Rightarrow>
          let pre = toFr ops comm
          in (case call idx of
                None \<Rightarrow> Inl NilDereference
              | Some Commit_child \<Rightarrow>
                  (case Commit_child of
                     Inl e \<Rightarrow> Inl e
                   | Inr (child', None) \<Rightarrow> Inl NilDereference
                   | Inr (child', Some p) \<Rightarrow>
                       (case setChild ch idx (Some child') of
                          Inl e \<Rightarrow> Inl e
                        | Inr ch' \<Rightarrow>
                            Commit_loop ops call s rest ch' (poly[unat idx := toFr ops p - pre])))))"

definition Commit_body ::
  "('g::ab_group_add, 'f::ab_group_add, 'l, 'i) ops
     \<Rightarrow> (byte \<Rightarrow> (panic + (('g, 'f, 'l, 'i) vnode \<times> 'g option)) option)
     \<Rightarrow> ('g, 'f, 'l, 'i) children \<Rightarrow> ('g, 'f) sfields
     \<Rightarrow> panic + (('g, 'f, 'l, 'i) vnode \<times> 'g option)" where
  "Commit_body ops call ch s =
     (if lenValues s \<noteq> 0 then Inr (StatelessNode ch s, commitment s)
      else if lenMap (cow s) \<noteq> 0 then
        (case Commit_loop ops call s (sortedKeys (cow s)) ch (replicate NodeWidth 0) of
           Inl e \<Rightarrow> Inl e
         | Inr (ch', poly) \<Rightarrow>
             (case commitment s of
                None \<Rightarrow> Inl NilDereference
              | Some cm \<Rightarrow>
                  let cm' = cm + CommitToPoly ops poly (256 - int (lenMap (cow s)))
                  in Inr (StatelessNode ch' (s\<lparr>cow := Map.empty, commitment := Some cm'\<rparr>),
                          Some cm')))
      else Inr (StatelessNode ch s, commitment s))"

primrec Commit ::
  "('g::ab_group_add, 'f::ab_group_add, 'l, 'i) ops \<Rightarrow> ('g, 'f, 'l, 'i) vnode
     \<Rightarrow> panic + (('g, 'f, 'l, 'i) vnode \<times> 'g option)" where
  "Commit ops Empty = ext_Commit ops Empty"
| "Commit ops (HashedNode comm cp) = ext_Commit ops (HashedNode comm cp)"
| "Commit ops (LeafNode l) = ext_Commit ops (LeafNode l)"
| "Commit ops (InternalNode_ext i) = ext_Commit ops (InternalNode_ext i)"
| "Commit ops (StatelessNode ch s) =
     Commit_body ops
       (callOf (map_option (\<lambda>m. map_option (map_option (\<lambda>c. (c, Commit ops c))) \<circ> m) ch))
       (childrenOf (map_option (\<lambda>m. map_option (map_option (\<lambda>c. (c, Commit ops c))) \<circ> m) ch))
       s"

text \<open>The recursion equation of \<open>Commit\<close> on a stateless node.\<close>

lemma Commit_StatelessNode [simp]:
  "Commit ops (StatelessNode ch s) =
     Commit_body ops (\<lambda>i. map_option (Commit ops) (lookupChild ch i)) ch s"
  by (simp only: Commit.simps childrenOf_paired callOf_paired)

declare Commit.simps(5) [simp del]

subsection \<open>GetProofItems\<close>

text \<open>
  The argument \<open>path\<close> is a \<open>keylist\<close>, of which the source reads \<open>path[0]\<close>. The order in
  which \<open>for suffix := range n.values\<close> visits the keys is chosen by the Go runtime and
  is not fixed by the language: it is the argument \<open>rng\<close>, a function from the map to
  the list of its keys in the order of the visit. The other loops over maps collect
  the keys and sort them. The source returns \<open>(pe, nil, nil)\<close>; the model returns \<open>pe\<close>.
\<close>

type_synonym rangeOrder = "(byte \<rightharpoonup> bytes option) \<Rightarrow> byte list"

definition rangeOrder_ok :: "rangeOrder \<Rightarrow> (byte \<rightharpoonup> bytes option) \<Rightarrow> bool" where
  "rangeOrder_ok rng m = (distinct (rng m) \<and> set (rng m) = dom m)"

definition emptyProofElements :: "('g, 'f) ProofElements" where
  "emptyProofElements = \<lparr>Cis = [], Zis = [], Yis = [], ByPath = Map.empty\<rparr>"

text \<open>The first loop of the internal case: one opening per child, in increasing order.\<close>

fun GetProofItems_openings ::
  "('g, 'f::zero, 'l, 'i) ops \<Rightarrow> ('g, 'f, 'l, 'i) children \<Rightarrow> ('g, 'f) sfields \<Rightarrow> bytes list
     \<Rightarrow> byte list \<Rightarrow> ('g, 'f) ProofElements \<Rightarrow> panic + ('g, 'f) ProofElements" where
  "GetProofItems_openings ops ch s path [] pe = Inr pe"
| "GetProofItems_openings ops ch s path (idx # rest) pe =
     (case (case lookupChild ch idx of
              None \<Rightarrow> Inr 0
            | Some child \<Rightarrow>
                (case Commitment ops child of
                   Inl e \<Rightarrow> Inl e
                 | Inr None \<Rightarrow> Inl NilDereference
                 | Inr (Some p) \<Rightarrow> Inr (toFr ops p))) of
        Inl e \<Rightarrow> Inl e
      | Inr yi \<Rightarrow>
          (case path of
             [] \<Rightarrow> Inl IndexOutOfRange
           | p0 # _ \<Rightarrow>
               GetProofItems_openings ops ch s path rest
                 (pe\<lparr>Cis := Cis pe @ [commitment s], Zis := Zis pe @ [idx], Yis := Yis pe @ [yi],
                     ByPath := (ByPath pe)(p0 @ [idx] \<mapsto> commitment s)\<rparr>)))"

text \<open>The second loop of the internal case: the proof elements of the stateless children.\<close>

fun GetProofItems_recurse ::
  "('g, 'f, 'l, 'i) ops \<Rightarrow> (byte \<Rightarrow> (bytes list \<Rightarrow> panic + ('g, 'f) ProofElements) option)
     \<Rightarrow> ('g, 'f, 'l, 'i) children \<Rightarrow> bytes list \<Rightarrow> byte list \<Rightarrow> ('g, 'f) ProofElements
     \<Rightarrow> panic + ('g, 'f) ProofElements" where
  "GetProofItems_recurse ops call ch path [] pe = Inr pe"
| "GetProofItems_recurse ops call ch path (idx # rest) pe =
     (case path of
        [] \<Rightarrow> Inl IndexOutOfRange
      | p0 # _ \<Rightarrow>
          (case lookupChild ch idx of
             Some (StatelessNode cch cs) \<Rightarrow>
               (case call idx of
                  None \<Rightarrow> Inl NilDereference
                | Some GetProofItems_child \<Rightarrow>
                    (case GetProofItems_child [p0 @ [idx]] of
                       Inl e \<Rightarrow> Inl e
                     | Inr childpe \<Rightarrow>
                         GetProofItems_recurse ops call ch path rest (Merge ops pe childpe)))
           | None \<Rightarrow> GetProofItems_recurse ops call ch path rest pe
           | Some (HashedNode comm cp) \<Rightarrow> GetProofItems_recurse ops call ch path rest pe
           | Some _ \<Rightarrow> Inl (PanicMsg ''invalid node type in stateless GetProofItems'')))"

text \<open>The loop that sets \<open>hasC1\<close> and \<open>hasC2\<close>, with its \<open>break\<close>.\<close>

fun hasC_loop :: "byte list \<Rightarrow> bool \<Rightarrow> bool \<Rightarrow> bool \<times> bool" where
  "hasC_loop [] hasC1 hasC2 = (hasC1, hasC2)"
| "hasC_loop (suffix # rest) hasC1 hasC2 =
     (let hasC1' = (hasC1 \<or> suffix < 128);
          hasC2' = (hasC2 \<or> suffix \<ge> 128)
      in if hasC2' then (hasC1', hasC2') else hasC_loop rest hasC1' hasC2')"

text \<open>The loop over the sorted suffixes of a leaf.\<close>

fun GetProofItems_suffixes ::
  "('g, 'f::zero, 'l, 'i) ops \<Rightarrow> ('g, 'f) sfields \<Rightarrow> bytes \<Rightarrow> byte list \<Rightarrow> ('g, 'f) ProofElements
     \<Rightarrow> panic + ('g, 'f) ProofElements" where
  "GetProofItems_suffixes ops s p0 [] pe = Inr pe"
| "GetProofItems_suffixes ops s p0 (suffix # rest) pe =
     (case (if suffix \<ge> 128 then c2 s else c1 s) of
        None \<Rightarrow> GetProofItems_suffixes ops s p0 rest pe
      | Some scomm \<Rightarrow>
          let slot = lookupValue s suffix;
              suffSlot = 2 + suffix div 128;
              slotPath = p0 @ [suffSlot]
          in (case slot of
                None \<Rightarrow>
                  GetProofItems_suffixes ops s p0 rest
                    (pe\<lparr>Cis := Cis pe @ [Some scomm, Some scomm],
                        Zis := Zis pe @ [2 * suffix, 2 * suffix + 1],
                        Yis := Yis pe @ [0, 0],
                        ByPath := (ByPath pe)(slotPath \<mapsto> Some scomm)\<rparr>)
              | Some b \<Rightarrow>
                  (case leafToComms ops slot of
                     Inl e \<Rightarrow> Inl e
                   | Inr (leaves0, leaves1) \<Rightarrow>
                       GetProofItems_suffixes ops s p0 rest
                         (pe\<lparr>Cis := Cis pe @ [Some scomm, Some scomm],
                             Zis := Zis pe @ [2 * suffix, 2 * suffix + 1],
                             Yis := Yis pe @ [leaves0, leaves1],
                             ByPath := (ByPath pe)(slotPath \<mapsto> Some scomm)\<rparr>))))"

definition GetProofItems_leaf ::
  "('g, 'f::{zero,one}, 'l, 'i) ops \<Rightarrow> rangeOrder \<Rightarrow> ('g, 'f) sfields \<Rightarrow> bytes list
     \<Rightarrow> panic + ('g, 'f) ProofElements" where
  "GetProofItems_leaf ops rng s path =
     (let vm = (case values s of None \<Rightarrow> Map.empty | Some m \<Rightarrow> m);
          pe1 = emptyProofElements
                  \<lparr>Cis := [commitment s, commitment s], Zis := [0, 1],
                   Yis := [1, StemFromBytes ops (stem s)]\<rparr>;
          hasC = hasC_loop (rng vm) False False
      in case (if fst hasC
               then (case c1 s of
                       None \<Rightarrow> Inl NilDereference
                     | Some p \<Rightarrow>
                         Inr (pe1\<lparr>Cis := Cis pe1 @ [commitment s], Zis := Zis pe1 @ [2],
                                  Yis := Yis pe1 @ [toFr ops p]\<rparr>))
               else Inr pe1) of
           Inl e \<Rightarrow> Inl e
         | Inr pe2 \<Rightarrow>
             (case (if snd hasC
                    then (case c2 s of
                            None \<Rightarrow> Inl NilDereference
                          | Some p \<Rightarrow>
                              Inr (pe2\<lparr>Cis := Cis pe2 @ [commitment s], Zis := Zis pe2 @ [3],
                                       Yis := Yis pe2 @ [toFr ops p]\<rparr>))
                    else Inr pe2) of
                Inl e \<Rightarrow> Inl e
              | Inr pe3 \<Rightarrow>
                  (case path of
                     [] \<Rightarrow> Inl IndexOutOfRange
                   | p0 # _ \<Rightarrow>
                       GetProofItems_suffixes ops s p0 (sortedKeys vm)
                         (pe3\<lparr>ByPath := (ByPath pe3)(p0 \<mapsto> commitment s)\<rparr>))))"

definition GetProofItems_body ::
  "('g, 'f::{zero,one}, 'l, 'i) ops \<Rightarrow> rangeOrder
     \<Rightarrow> (byte \<Rightarrow> (bytes list \<Rightarrow> panic + ('g, 'f) ProofElements) option)
     \<Rightarrow> ('g, 'f, 'l, 'i) children \<Rightarrow> ('g, 'f) sfields \<Rightarrow> bytes list
     \<Rightarrow> panic + ('g, 'f) ProofElements" where
  "GetProofItems_body ops rng call ch s path =
     (if lenValues s = 0 then
        (let indices = (case ch of None \<Rightarrow> [] | Some m \<Rightarrow> sortedKeys m)
         in case GetProofItems_openings ops ch s path indices emptyProofElements of
              Inl e \<Rightarrow> Inl e
            | Inr pe \<Rightarrow> GetProofItems_recurse ops call ch path indices pe)
      else GetProofItems_leaf ops rng s path)"

primrec (nonexhaustive) GetProofItems ::
  "('g, 'f::{zero,one}, 'l, 'i) ops \<Rightarrow> rangeOrder \<Rightarrow> ('g, 'f, 'l, 'i) vnode \<Rightarrow> bytes list
     \<Rightarrow> panic + ('g, 'f) ProofElements" where
  "GetProofItems ops rng (StatelessNode ch s) path =
     GetProofItems_body ops rng
       (callOf (map_option
          (\<lambda>m. map_option (map_option (\<lambda>c. (c, GetProofItems ops rng c))) \<circ> m) ch))
       (childrenOf (map_option
          (\<lambda>m. map_option (map_option (\<lambda>c. (c, GetProofItems ops rng c))) \<circ> m) ch))
       s path"

text \<open>The recursion equation of \<open>GetProofItems\<close>.\<close>

lemma GetProofItems_StatelessNode [simp]:
  "GetProofItems ops rng (StatelessNode ch s) path =
     GetProofItems_body ops rng (\<lambda>i. map_option (GetProofItems ops rng) (lookupChild ch i))
       ch s path"
  by (simp only: GetProofItems.simps childrenOf_paired callOf_paired)

declare GetProofItems.simps [simp del]

subsection \<open>cowChild on a store of points\<close>

text \<open>
  The fields of type \<open>*Point\<close> are values in the model above. For \<open>cowChild\<close>, whose
  purpose is to keep a copy that later writes through the child's pointer do not
  reach, the same function is given on a store of points: a \<open>*Point\<close> is an address,
  \<open>new(Point)\<close> allocates a cell, \<open>CopyPoint\<close> copies the content of one cell into
  another. The node is represented by what \<open>cowChild\<close> reads of it: whether
  \<open>n.children\<close> is nil, the map \<open>n.cow\<close>, and for each index the result of
  \<open>n.children[index].Commitment()\<close> (\<open>None\<close> for a nil child).
\<close>

type_synonym addr = nat

record 'g store =
  cell :: "addr \<rightharpoonup> 'g"
  free :: addr

definition new_Point :: "'g::zero store \<Rightarrow> addr \<times> 'g store" where
  "new_Point st = (free st, st\<lparr>cell := (cell st)(free st \<mapsto> 0), free := Suc (free st)\<rparr>)"

definition CopyPoint :: "'g store \<Rightarrow> addr \<Rightarrow> addr option \<Rightarrow> panic + 'g store" where
  "CopyPoint st dst src =
     (case src of
        None \<Rightarrow> Inl NilDereference
      | Some a \<Rightarrow>
          (case cell st a of
             None \<Rightarrow> Inl NilDereference
           | Some v \<Rightarrow> Inr (st\<lparr>cell := (cell st)(dst \<mapsto> v)\<rparr>)))"

definition cowChild_store ::
  "'g::zero store \<Rightarrow> bool \<Rightarrow> (byte \<rightharpoonup> addr) \<Rightarrow> (byte \<rightharpoonup> panic + addr option) \<Rightarrow> byte
     \<Rightarrow> panic + ('g store \<times> (byte \<rightharpoonup> addr))" where
  "cowChild_store st children_nil cowp child_Commitment index =
     (if children_nil then Inr (st, cowp)
      else (case cowp index of
              Some a \<Rightarrow> Inr (st, cowp)
            | None \<Rightarrow>
                let (a, st1) = new_Point st
                in (case child_Commitment index of
                      None \<Rightarrow> Inl NilDereference
                    | Some (Inl e) \<Rightarrow> Inl e
                    | Some (Inr src) \<Rightarrow>
                        (case CopyPoint st1 a src of
                           Inl e \<Rightarrow> Inl e
                         | Inr st2 \<Rightarrow> Inr (st2, cowp(index \<mapsto> a))))))"

text \<open>Reading the snapshots through the store gives the map \<open>cow\<close> of the model on values.\<close>

definition readCow :: "'g store \<Rightarrow> (byte \<rightharpoonup> addr) \<Rightarrow> (byte \<rightharpoonup> 'g)" where
  "readCow st cowp = (\<lambda>i. case cowp i of None \<Rightarrow> None | Some a \<Rightarrow> cell st a)"

lemma cowChild_store_refines:
  assumes abs: "cow s = readCow st cowp"
    and wf: "\<forall>j a. cowp j = Some a \<longrightarrow> a < free st \<and> cell st a \<noteq> None"
    and child: "lookupChild ch i = Some child" "Commitment ops child = Inr (Some p)"
    and ptr: "child_Commitment i = Some (Inr (Some src))" "cell st src = Some p" "src < free st"
    and run: "cowChild_store st (ch = None) cowp child_Commitment i = Inr (st1, cow1)"
  shows "cowChild ops (ch, s) i = Inr (ch, s\<lparr>cow := readCow st1 cow1\<rparr>)"
proof (cases "cowp i")
  case (Some a)
  with wf have "cell st a \<noteq> None" by blast
  with Some abs have "cow s i \<noteq> None" by (simp add: readCow_def)
  moreover from Some run child(1) have "st1 = st" "cow1 = cowp"
    by (auto simp: cowChild_store_def lookupChild_def split: if_splits)
  ultimately show ?thesis
    using child abs by (auto simp: cowChild_def lookupChild_def split: option.splits)
next
  case None
  from child(1) have ch: "ch \<noteq> None" by (auto simp: lookupChild_def split: option.splits)
  from None run ptr ch have res: "cow1 = cowp(i \<mapsto> free st)"
    "st1 = st\<lparr>cell := (cell st)(free st \<mapsto> p), free := Suc (free st)\<rparr>"
    by (auto simp: cowChild_store_def new_Point_def CopyPoint_def split: if_splits)
  have "readCow st1 cow1 = (cow s)(i \<mapsto> p)"
  proof
    fix j
    show "readCow st1 cow1 j = ((cow s)(i \<mapsto> p)) j"
    proof (cases "j = i")
      case True
      then show ?thesis by (simp add: res readCow_def)
    next
      case False
      show ?thesis
      proof (cases "cowp j")
        case None
        with False abs show ?thesis by (simp add: res readCow_def)
      next
        case (Some b)
        with wf have "b \<noteq> free st" by fastforce
        with False Some abs show ?thesis by (simp add: res readCow_def)
      qed
    qed
  qed
  moreover from None abs have "cow s i = None" by (simp add: readCow_def)
  ultimately show ?thesis
    using child ch by (auto simp: cowChild_def split: option.splits)
qed

section \<open>Concrete instances\<close>

text \<open>
  The examples below evaluate the model on concrete nodes. For the stateful tree they
  use a configuration of width 8 with 256 children per node. For the stateless tree
  they use an instance of the parameters over the integers (points and scalars are
  integers, \<open>toFr\<close> is the identity, every basis point is 1), in which the parser fails;
  \<open>ops1\<close> is the same instance with a parser that returns an empty leaf.
\<close>

definition tc8 :: "int TreeConfig" where
  "tc8 = \<lparr>width = 8, nodeWidth = 256, modulus = 0, lg1 = []\<rparr>"

definition ops0 :: "(int, int, unit, unit) ops" where
  "ops0 =
     \<lparr>toFr = (\<lambda>p. p),
      leafToComms = (\<lambda>v. Inr (case v of None \<Rightarrow> (0, 0) | Some b \<Rightarrow> (int (beNat b), 1))),
      StemFromBytes = (\<lambda>b. int (beNat b)),
      SRS = replicate 512 1,
      ScalarMul = (\<lambda>p x. p * x),
      CommitToPoly = (\<lambda>poly e. sum_list poly),
      equalPaths = (\<lambda>a b. take 31 a = take 31 b),
      ParseStatelessNode = (\<lambda>serialized d comm. Inl (errorsNew ''malformed node'')),
      NewLeafNode = (\<lambda>st vs. ()),
      LeafNode_stem = (\<lambda>l. []),
      LeafNode_depth = (\<lambda>l. 0),
      LeafNode_setDepth = (\<lambda>l d. l),
      LeafNode_updateMultipleLeaves = (\<lambda>l vs. Inr l),
      InternalNode_InsertStem = (\<lambda>i st vs r. Inr (i, None)),
      ext_Commitment = (\<lambda>n. Inr (Some 0)),
      ext_Commit = (\<lambda>n. Inr (n, Some 0)),
      ext_Get = (\<lambda>n k r. Inr (n, None, None)),
      Merge = (\<lambda>a b. a\<lparr>Cis := Cis a @ Cis b, Zis := Zis a @ Zis b, Yis := Yis a @ Yis b,
                        ByPath := ByPath b ++ ByPath a\<rparr>)\<rparr>"

text \<open>
  A stateless node in leaf mode with the given stem and values, at depth 1, with
  commitment 7 and sub-commitments 3 and 4; an internal stateless root without
  children; a leaf with stem \<open>01...01\<close> that stores a value under suffix 0, and a root
  that holds this leaf in slot 0, as the reconstruction from a proof would leave it.
\<close>

definition leafFields :: "bytes \<Rightarrow> (byte \<rightharpoonup> bytes option) \<Rightarrow> (int, int) sfields" where
  "leafFields st vm =
     \<lparr>unresolved = Map.empty, values = Some vm, stem = st, depth = 1, count = 0,
      hash = None, cow = Map.empty, commitment = Some 7, c1 = Some 3, c2 = Some 4\<rparr>"

definition rootFields :: "(int, int) sfields" where
  "rootFields =
     \<lparr>unresolved = Map.empty, values = None, stem = [], depth = 0, count = 0,
      hash = None, cow = Map.empty, commitment = Some 0, c1 = None, c2 = None\<rparr>"

definition otherLeaf :: "(int, int, unit, unit) vnode" where
  "otherLeaf = StatelessNode None (leafFields (replicate 31 1) [0 \<mapsto> Some [9]])"

definition proofRoot :: "(int, int, unit, unit) snode" where
  "proofRoot = (Some [0 \<mapsto> Some otherLeaf], rootFields)"

text \<open>A root whose slot 0 is known by its commitment only, and two resolvers.\<close>

definition unresolvedRoot :: "(int, int, unit, unit) snode" where
  "unresolvedRoot = (Some Map.empty, rootFields\<lparr>unresolved := [0 \<mapsto> [7]]\<rparr>)"

definition parsedLeaf :: "(int, int, unit, unit) vnode" where
  "parsedLeaf = StatelessNode None (leafFields (replicate 31 0) Map.empty)"

definition ops1 :: "(int, int, unit, unit) ops" where
  "ops1 = ops0\<lparr>ParseStatelessNode := (\<lambda>serialized d comm. Inr parsedLeaf)\<rparr>"

definition noResolver :: resolver where
  "noResolver = (\<lambda>c. Inl (errorsNew ''node not available''))"

definition storeResolver :: resolver where
  "storeResolver = (\<lambda>c. Inr [1])"

section \<open>Auxiliary facts\<close>

lemma beNat_zeros [simp]: "beNat (replicate n 0) = 0"
  by (induction n) (simp_all add: beNat_def)

lemma beNat_single [simp]: "beNat [b] = unat b"
  by (simp add: beNat_def)

lemma unat_byte_lt: "unat (b::byte) < 256"
  using unsigned_less [of b, where 'a=nat] by simp

lemma unat_byte_nle: "\<not> 256 \<le> unat (b::byte)"
  using unat_byte_lt [of b] by (simp add: not_le)

lemma fold_max_update_gen:
  "i < n \<Longrightarrow> fold max (map height ((replicate n emptyNode)[i := x])) a = max a (height x)"
proof (induction n arbitrary: i a)
  case 0
  then show ?case by simp
next
  case (Suc n)
  show ?case
  proof (cases i)
    case 0
    have "fold max (map height (replicate n emptyNode)) b = b" for b :: nat
      by (induction n arbitrary: b) simp_all
    with 0 show ?thesis by (simp add: max.commute)
  next
    case (Suc j)
    with Suc.prems have "j < n" by simp
    from Suc.IH [OF this] Suc show ?thesis by simp
  qed
qed

lemma height_branch:
  "i < n \<Longrightarrow> height (InternalNode ((replicate n emptyNode)[i := x]) d h c tc) = Suc (height x)"
  by (simp add: fold_max_update_gen)

lemma height_two_leaves:
  "height (InternalNode ((replicate n emptyNode)[i := leafNode k v, j := leafNode k' v'])
             d h c tc) = 1"
proof -
  have "fold max (map height ((replicate n emptyNode)[i := leafNode k v, j := leafNode k' v'])) 0
          = 0"
    by (rule fold_max_zero) (auto dest!: set_update_subset_insert [THEN subsetD])
  then show ?thesis by simp
qed

lemma ComputeCommitment_children_empty:
  "ComputeCommitment_children B tc (replicate n emptyNode) idx =
     Inr (replicate n emptyNode, replicate n 0, n)"
  by (induction n arbitrary: idx) simp_all

lemma directSum_zeros: "directSum B lg (replicate n 0) i comm = Inr comm"
  by (induction n arbitrary: i) simp_all

text \<open>The keys of a map, sorted.\<close>

lemma set_allBytes: "set allBytes = UNIV"
proof -
  have "b \<in> set allBytes" for b :: byte
  proof -
    have "unat b < 256" by (rule unat_byte_lt)
    moreover have "of_nat (unat b) = b" by simp
    ultimately show ?thesis
      unfolding allBytes_def
      by (metis (no_types, lifting) atLeastLessThan_iff image_eqI set_map set_upt zero_le)
  qed
  then show ?thesis by auto
qed

lemma sortedKeys_empty [simp]: "sortedKeys Map.empty = []"
  by (simp add: sortedKeys_def)

lemma set_sortedKeys [simp]: "set (sortedKeys m) = dom m"
  by (auto simp: sortedKeys_def set_allBytes)

lemma lenMap_eq_0_iff [simp]: "lenMap m = 0 \<longleftrightarrow> m = Map.empty"
proof
  assume "lenMap m = 0"
  then have "set (sortedKeys m) = {}" by (simp add: lenMap_def)
  then show "m = Map.empty" by simp
next
  assume "m = Map.empty"
  then show "lenMap m = 0" by (simp add: lenMap_def)
qed

lemma lenValues_eq_0_iff: "lenValues s = 0 \<longleftrightarrow> values s = None \<or> values s = Some Map.empty"
  by (auto simp: lenValues_def split: option.splits)

lemma sorted_allBytes: "sorted allBytes" and distinct_allBytes: "distinct allBytes"
proof -
  have inj: "inj_on (of_nat :: nat \<Rightarrow> byte) {0..<256}"
    by (rule inj_onI) (simp add: word_of_nat_eq_iff take_bit_nat_eq_self)
  show "distinct allBytes"
    unfolding allBytes_def by (simp add: distinct_map inj)
  have "sorted_wrt (\<lambda>i j. (of_nat i :: byte) \<le> of_nat j) [0..<256]"
    by (rule sorted_wrt_mono_rel [of _ "(\<le>)"]) (auto simp: word_le_nat_alt unat_of_nat)
  then show "sorted allBytes"
    unfolding allBytes_def by (simp add: sorted_map)
qed

lemma sortedKeys_sorted_list: "sortedKeys m = sorted_list_of_set (dom m)"
proof -
  have "sorted (sortedKeys m)" "distinct (sortedKeys m)"
    unfolding sortedKeys_def
    by (rule sorted_wrt_filter [OF sorted_allBytes]) (rule distinct_filter [OF distinct_allBytes])
  then show ?thesis
    by (metis set_sortedKeys sorted_list_of_set.idem_if_sorted_distinct)
qed

text \<open>A list of 256 values with one entry, and the loop over the nil values.\<close>

lemma updateMultipleLeaves_loop_nils:
  "updateMultipleLeaves_loop ops s (replicate n None) i l1 l2 = Inr (s, l1, l2)"
  by (induction n arbitrary: i) (simp_all add: len_def sliceBytes_def)

lemma replicate_update_0: "(replicate (Suc n) x)[0 := v] = v # replicate n x"
  by simp

lemma values_256: "(replicate NodeWidth None)[0 := v] = v # replicate 255 None"
proof -
  have "(256::nat) = Suc 255" by simp
  then show ?thesis by (simp only: NodeWidth_def replicate_update_0)
qed

lemmas InsertAtStem_eval =
  installChild_def resolveChild_def cowChild_def Commitment_def
  updateMultipleLeaves_def updateMultipleLeaves_loop_nils getOldCn_def updateCn_def updateC_def
  srs_def deref_def assign_def setValue_def setChild_def lookupChild_def lookupValue_def
  offset2key_def len_def bytesEqual_def sliceBytes_def Let_def

lemmas GetProofItems_eval =
  GetProofItems_body_def GetProofItems_leaf_def lenValues_eq_0_iff leafFields_def
  emptyProofElements_def Let_def sortedKeys_sorted_list lookupValue_def ops0_def rangeOrder_ok_def

text \<open>The loop that sets \<open>hasC1\<close> and \<open>hasC2\<close>.\<close>

lemma hasC_loop_snd:
  "snd (hasC_loop xs h1 h2) \<longleftrightarrow> h2 \<or> (\<exists>x \<in> set xs. x \<ge> 128)"
  by (induction xs arbitrary: h1 h2) (auto simp: Let_def)

lemma hasC_loop_fst_only_if:
  "fst (hasC_loop xs h1 h2) \<Longrightarrow> h1 \<or> (\<exists>x \<in> set xs. x < 128)"
  by (induction xs arbitrary: h1 h2) (auto simp: Let_def split: if_splits)

lemma hasC_loop_fst_if:
  "\<forall>x \<in> set xs. x < 128 \<Longrightarrow> \<not> h2 \<Longrightarrow> fst (hasC_loop xs h1 h2) \<longleftrightarrow> h1 \<or> xs \<noteq> []"
  by (induction xs arbitrary: h1 h2) (auto simp: Let_def dest: leD)

text \<open>
  The loop over the suffixes only appends: started on \<open>pe\<close> it panics exactly when it
  panics started on nothing, and otherwise adds to \<open>pe\<close> what it produces from nothing.
\<close>

definition extends ::
  "('g, 'f) ProofElements \<Rightarrow> ('g, 'f) ProofElements \<Rightarrow> ('g, 'f) ProofElements \<Rightarrow> bool" where
  "extends pe pe' q \<longleftrightarrow>
     Cis pe' = Cis pe @ Cis q \<and> Zis pe' = Zis pe @ Zis q \<and> Yis pe' = Yis pe @ Yis q"

lemma suffixes_rel:
  "rel_sum (=) (extends pe) (GetProofItems_suffixes ops s p0 ks pe)
     (GetProofItems_suffixes ops s p0 ks emptyProofElements)"
proof (induction ks arbitrary: pe)
  case Nil
  show ?case by (simp add: extends_def emptyProofElements_def)
next
  case (Cons k ks)
  have step: "rel_sum (=) (extends pe) (GetProofItems_suffixes ops s p0 ks (f pe))
      (GetProofItems_suffixes ops s p0 ks (f emptyProofElements))"
    if f: "\<And>x. Cis (f x) = Cis x @ a" "\<And>x. Zis (f x) = Zis x @ b" "\<And>x. Yis (f x) = Yis x @ c"
    for f :: "('a, 'b) ProofElements \<Rightarrow> ('a, 'b) ProofElements" and a b c
  proof -
    have 1: "rel_sum (=) (extends (f pe)) (GetProofItems_suffixes ops s p0 ks (f pe))
        (GetProofItems_suffixes ops s p0 ks emptyProofElements)"
      by (rule Cons.IH)
    have 2: "rel_sum (=) (extends (f emptyProofElements))
        (GetProofItems_suffixes ops s p0 ks (f emptyProofElements))
        (GetProofItems_suffixes ops s p0 ks emptyProofElements)"
      by (rule Cons.IH)
    show ?thesis
      using 1 2
      by (cases "GetProofItems_suffixes ops s p0 ks emptyProofElements";
          cases "GetProofItems_suffixes ops s p0 ks (f pe)";
          cases "GetProofItems_suffixes ops s p0 ks (f emptyProofElements)")
        (auto simp: extends_def f emptyProofElements_def)
  qed
  show ?case
  proof (cases "if k \<ge> 128 then c2 s else c1 s")
    case None
    with Cons.IH [of pe] show ?thesis by simp
  next
    case scomm: (Some scomm)
    show ?thesis
    proof (cases "lookupValue s k")
      case None
      with scomm show ?thesis
        by (simp add: Let_def del: One_nat_def) (rule step; simp)
    next
      case (Some b)
      show ?thesis
      proof (cases "leafToComms ops (Some b)")
        case (Inl e)
        with Some scomm show ?thesis by (simp add: Let_def)
      next
        case (Inr lv)
        with Some scomm show ?thesis
          by (cases lv) (simp add: Let_def, rule step; simp)
      qed
    qed
  qed
qed

lemma leaf_branch:
  "values s = Some vm \<Longrightarrow> vm \<noteq> Map.empty \<Longrightarrow>
     GetProofItems ops rng (StatelessNode ch s) path = GetProofItems_leaf ops rng s path"
  by (simp add: GetProofItems_body_def lenValues_eq_0_iff)

text \<open>\<open>Get\<close> removes the unresolved entry of the child that it resolves.\<close>

lemma Get_child_resolves:
  "Get_child ops n i getter = Inr (Inr (n1, child)) \<Longrightarrow> lookupChild (fst n) i = None \<Longrightarrow>
     lookupChild (fst n1) i = Some child \<and> unresolved (snd n1) i = None"
  by (auto simp: Get_child_def setChild_def lookupChild_def split: option.splits sum.splits)

text \<open>
  On an internal node, \<open>insertValue\<close> returns no error whenever it returns: the error
  of the recursive call is not passed on.
\<close>

lemma insertValue_internal_returns_nil:
  "lenChildren ch \<noteq> 0 \<Longrightarrow> insertValue (StatelessNode ch s) key v = Inr (n', err) \<Longrightarrow> err = None"
  by (auto simp: insertValue_body_def split: sum.splits option.splits vnode.splits if_splits)

text \<open>\<open>Delete\<close> is \<open>Insert\<close> of 32 zero bytes; a fresh root has no value under any key.\<close>

lemma Delete_eq_Insert_zeros:
  "Delete fuel ops n key resolver =
     StatelessNode_Insert fuel ops n key (Some (replicate 32 0)) resolver"
  by (simp add: Delete_def)

lemma Get_fresh_root_absent:
  "0 < length k \<Longrightarrow>
     StatelessNode_Get (Suc fuel) ops NewStateless k getter = Some (Inr (NewStateless, None, None))"
  by (simp add: NewStateless_def offset2key_def Get_child_def lookupChild_def)

text \<open>What the leaf updates, \<open>cowChild\<close> and the first part of \<open>InsertAtStem\<close> leave alone.\<close>

lemma updateCn_frame:
  "updateCn ops s i v c = Inr s' \<Longrightarrow>
     unresolved s' = unresolved s \<and> values s' = values s \<and> stem s' = stem s \<and> depth s' = depth s"
  by (auto simp: updateCn_def assign_def split: sum.splits option.splits cref.splits prod.splits)

lemma updateC_frame:
  "updateC ops s i c old = Inr s' \<Longrightarrow>
     unresolved s' = unresolved s \<and> values s' = values s \<and> stem s' = stem s \<and> depth s' = depth s"
  by (auto simp: updateC_def Let_def split: sum.splits option.splits)

lemma setValue_frame:
  "setValue s i v = Inr s' \<Longrightarrow>
     unresolved s' = unresolved s \<and> stem s' = stem s \<and> depth s' = depth s
     \<and> (\<exists>m. values s = Some m \<and> values s' = Some (m(i \<mapsto> v)))"
  by (auto simp: setValue_def split: option.splits)

lemma loop_frame:
  "updateMultipleLeaves_loop ops s vs i l1 l2 = Inr (s', l1', l2') \<Longrightarrow>
     unresolved s' = unresolved s \<and> stem s' = stem s \<and> depth s' = depth s
     \<and> (values s = None \<longleftrightarrow> values s' = None)"
proof (induction vs arbitrary: s i l1 l2)
  case Nil
  then show ?case by simp
next
  case (Cons v vs)
  show ?case
  proof (cases "len v \<noteq> 0 \<and> \<not> bytesEqual v (lookupValue s (of_nat i))")
    case False
    with Cons.prems have "updateMultipleLeaves_loop ops s vs (Suc i) l1 l2 = Inr (s', l1', l2')"
      by auto
    from Cons.IH [OF this] show ?thesis .
  next
    case True
    show ?thesis
    proof (cases "i < 128")
      case lt: True
      from Cons.prems True lt obtain x s1 s2 where
        a: "updateCn ops s (of_nat i) v (fst x) = Inr s1" "setValue s1 (of_nat i) v = Inr s2"
           "updateMultipleLeaves_loop ops s2 vs (Suc i) (Some x) l2 = Inr (s', l1', l2')"
        by (auto split: sum.splits)
      from updateCn_frame [OF a(1)] setValue_frame [OF a(2)] Cons.IH [OF a(3)]
      show ?thesis by auto
    next
      case ge: False
      from Cons.prems True ge obtain x s1 s2 where
        a: "updateCn ops s (of_nat i) v (fst x) = Inr s1" "setValue s1 (of_nat i) v = Inr s2"
           "updateMultipleLeaves_loop ops s2 vs (Suc i) l1 (Some x) = Inr (s', l1', l2')"
        by (auto split: sum.splits)
      from updateCn_frame [OF a(1)] setValue_frame [OF a(2)] Cons.IH [OF a(3)]
      show ?thesis by auto
    qed
  qed
qed

lemma updateMultipleLeaves_frame:
  "updateMultipleLeaves ops s vs = Inr s' \<Longrightarrow>
     unresolved s' = unresolved s \<and> stem s' = stem s \<and> depth s' = depth s
     \<and> (values s = None \<longleftrightarrow> values s' = None)"
  by (auto simp: updateMultipleLeaves_def split: sum.splits option.splits prod.splits
      dest!: loop_frame updateC_frame)

lemma cowChild_frame:
  "cowChild ops n i = Inr n' \<Longrightarrow> fst n' = fst n \<and> unresolved (snd n') = unresolved (snd n)"
  by (auto simp: cowChild_def split: sum.splits option.splits)

lemma installChild_frame:
  "installChild ops n i st vs = Inr x \<Longrightarrow>
     (case x of Inl (n', err) \<Rightarrow> unresolved (snd n') = unresolved (snd n)
              | Inr n' \<Rightarrow> unresolved (snd n') = unresolved (snd n))"
  by (auto simp: installChild_def Let_def setChild_def split: sum.splits option.splits if_splits
      dest!: cowChild_frame)

lemma resolveChild_frame:
  "resolveChild ops n i st g = Inr x \<Longrightarrow>
     (case x of Inl (n', err) \<Rightarrow> unresolved (snd n') = unresolved (snd n)
              | Inr n' \<Rightarrow> unresolved (snd n') = unresolved (snd n))"
  by (auto simp: resolveChild_def setChild_def split: sum.splits option.splits vnode.splits)

text \<open>\<open>InsertAtStem\<close> never changes the map \<open>unresolved\<close> of its receiver.\<close>

lemma InsertAtStem_unresolved_unchanged:
  assumes "InsertAtStem f ops n st vs g = Some (Inr (n', err))"
  shows "unresolved (snd n') = unresolved (snd n)"
proof (cases f)
  case 0
  with assms show ?thesis by simp
next
  case (Suc f')
  note prem = assms [unfolded Suc]
  show ?thesis
  proof (cases "offset2key st (depth (snd n))")
    case (Inl e)
    with prem show ?thesis by simp
  next
    case nChild: (Inr nChild)
    show ?thesis
    proof (cases "values (snd n) \<noteq> None")
      case True
      with prem nChild show ?thesis
        by (auto split: sum.splits dest!: updateMultipleLeaves_frame)
    next
      case leafless: False
      show ?thesis
      proof (cases "installChild ops n nChild st vs")
        case (Inl e)
        with prem nChild leafless show ?thesis by simp
      next
        case i1: (Inr x1)
        show ?thesis
        proof (cases x1)
          case (Inl ret)
          with prem nChild leafless i1 installChild_frame [OF i1] show ?thesis by auto
        next
          case n1: (Inr n1)
          with installChild_frame [OF i1] have u1: "unresolved (snd n1) = unresolved (snd n)"
            by simp
          show ?thesis
          proof (cases "resolveChild ops n1 nChild st g")
            case (Inl e)
            with prem nChild leafless i1 n1 show ?thesis by simp
          next
            case i2: (Inr x2)
            show ?thesis
            proof (cases x2)
              case (Inl ret)
              with prem nChild leafless i1 n1 i2 resolveChild_frame [OF i2] u1 show ?thesis
                by auto
            next
              case n2: (Inr n2)
              with resolveChild_frame [OF i2] u1
              have u2: "unresolved (snd n2) = unresolved (snd n)" by simp
              show ?thesis
              proof (cases "cowChild ops n2 nChild")
                case (Inl e)
                with prem nChild leafless i1 n1 i2 n2 show ?thesis by simp
              next
                case n3: (Inr n3)
                with cowChild_frame [OF n3] u2
                have u3: "unresolved (snd n3) = unresolved (snd n)" by simp
                from prem nChild leafless i1 n1 i2 n2 n3
                have "snd n' = snd n3 \<or> snd n' = (snd n3)\<lparr>count := count (snd n3) + 1\<rparr>"
                  by (auto split: option.splits vnode.splits sum.splits if_splits)
                with u3 show ?thesis by auto
              qed
            qed
          qed
        qed
      qed
    qed
  qed
qed

text \<open>
  On a node in leaf mode that has the stem of the key, \<open>Delete\<close> writes 32 zero bytes
  under the suffix of the key, and \<open>Get\<close> reads them back.
\<close>

lemma loop_skip:
  "updateMultipleLeaves_loop ops s (replicate a None @ rest) i l1 l2 =
     updateMultipleLeaves_loop ops s rest (i + a) l1 l2"
  by (induction a arbitrary: i) (simp_all add: len_def sliceBytes_def)

lemma lookupValue_values: "values s' = values s \<Longrightarrow> lookupValue s' i = lookupValue s i"
  by (simp add: lookupValue_def)

lemma loop_single:
  assumes run: "updateMultipleLeaves_loop ops s (Some z # replicate b None) p l1 l2 = Inr (s', l1', l2')"
    and z: "z \<noteq> []"
  shows "lookupValue s' (of_nat p) = Some z"
proof (cases "bytesEqual (Some z) (lookupValue s (of_nat p))")
  case True
  with run z have "s' = s"
    by (simp add: len_def sliceBytes_def updateMultipleLeaves_loop_nils)
  moreover from True z have "lookupValue s (of_nat p) = Some z"
    by (cases "lookupValue s (of_nat p)") (auto simp: bytesEqual_def sliceBytes_def)
  ultimately show ?thesis by simp
next
  case False
  with z have c: "len (Some z) \<noteq> 0 \<and> \<not> bytesEqual (Some z) (lookupValue s (of_nat p))"
    by (simp add: len_def sliceBytes_def)
  from run c obtain x s1 s2 where
    a: "updateCn ops s (of_nat p) (Some z) (fst x) = Inr s1"
       "setValue s1 (of_nat p) (Some z) = Inr s2" "s' = s2"
    by (cases "p < 128") (auto simp: updateMultipleLeaves_loop_nils split: sum.splits)
  from setValue_frame [OF a(2)] a(3) show ?thesis
    by (auto simp: lookupValue_def)
qed

lemma replicate_update_split:
  "p < n \<Longrightarrow> (replicate n x)[p := v] = replicate p x @ v # replicate (n - Suc p) x"
  by (auto simp: list_eq_iff_nth_eq nth_list_update nth_append nth_Cons split: nat.splits)

lemma updateMultipleLeaves_single:
  assumes run: "updateMultipleLeaves ops s ((replicate NodeWidth None)[unat b := Some z]) = Inr s'"
    and z: "z \<noteq> []"
  shows "lookupValue s' b = Some z"
proof -
  have split: "(replicate NodeWidth None)[unat b := Some z] =
      replicate (unat b) None @ Some z # replicate (NodeWidth - Suc (unat b)) None"
    by (rule replicate_update_split) (simp add: NodeWidth_def unat_byte_lt)
  from run obtain s1 l1 l2 where
    loop: "updateMultipleLeaves_loop ops s
             (Some z # replicate (NodeWidth - Suc (unat b)) None) (unat b) None None =
           Inr (s1, l1, l2)"
    and rest: "values s' = values s1"
    unfolding updateMultipleLeaves_def split loop_skip
    by (auto split: sum.splits option.splits prod.splits dest!: updateC_frame)
  from loop_single [OF loop z] have "lookupValue s1 b = Some z" by simp
  with lookupValue_values [OF rest] show ?thesis by simp
qed

lemma Delete_same_stem_reads_zeros:
  assumes leaf: "values s \<noteq> None" and stem: "stem s = take 31 key" and len: "length key = 32"
    and del: "Delete (Suc f) ops (ch, s) key resolver = Some (Inr (n', err))"
  shows "err = None \<and>
     StatelessNode_Get (Suc f') ops n' key getter = Some (Inr (n', Some (replicate 32 0), None))"
proof -
  from del leaf len obtain s' where
    upd: "updateMultipleLeaves ops s ((replicate NodeWidth None)[unat (key ! 31) := Some (replicate 32 0)])
            = Inr s'"
    and n': "n' = (ch, s')" and err: "err = None"
    by (auto simp: Delete_def StatelessNode_Insert_def split: sum.splits)
  from updateMultipleLeaves_single [OF upd] have v: "lookupValue s' (key ! 31) = Some (replicate 32 0)"
    by simp
  from updateMultipleLeaves_frame [OF upd] leaf stem
  have "values s' \<noteq> None" "stem s' = take 31 key" by auto
  with v len n' err show ?thesis by simp
qed

section \<open>The stateful tree: insertion, lookup, the empty root\<close>

text \<open>
  C1. On a fresh tree of width 8, inserting \<open>(k1, v1)\<close> and then \<open>(k2, v2)\<close>, for two
  32-byte keys that agree on their first three bytes and differ in byte 3, succeeds;
  afterwards \<open>Get(k1)\<close> returns \<open>v1\<close> and \<open>Get(k2)\<close> returns \<open>v2\<close>. The branch that holds
  the two leaves consists of four internal nodes, one per consumed byte of the key:
  the root (depth 0), the internal nodes for the shared bytes 1 and 2 (depths 8 and
  16), and the branching internal node (depth 24) whose slots \<open>k1[3]\<close> and \<open>k2[3]\<close> hold
  the two leaves. Every other slot on the branch is empty, and the tree has height 4.
\<close>

theorem insert_two_keys_branch:
  assumes tc: "width tc = 8" "nodeWidth tc = 256"
    and len: "length k1 = 32" "length k2 = 32"
    and pre: "take 3 k1 = take 3 k2"
    and diff: "k1 ! 3 \<noteq> k2 ! 3"
  shows
    "let E = replicate 256 emptyNode;
         r1 = InternalNode (E[unat (k1 ! 0) := leafNode k1 v1]) 0 zeroHash None tc;
         r2 = InternalNode (E[unat (k1 ! 0) :=
                InternalNode (E[unat (k1 ! 1) :=
                  InternalNode (E[unat (k1 ! 2) :=
                    InternalNode (E[unat (k1 ! 3) := leafNode k1 v1,
                                    unat (k2 ! 3) := leafNode k2 v2])
                      24 zeroHash None tc])
                    16 zeroHash None tc])
                  8 zeroHash None tc])
                0 zeroHash None tc
     in Insert (New tc) k1 v1 = Inr (r1, None)
        \<and> Insert r1 k2 v2 = Inr (r2, None)
        \<and> Get r2 k1 = Inr (v1, None)
        \<and> Get r2 k2 = Inr (v2, None)
        \<and> height r2 = 4"
proof -
  have "take 3 k1 ! 0 = take 3 k2 ! 0" "take 3 k1 ! 1 = take 3 k2 ! 1"
    "take 3 k1 ! 2 = take 3 k2 ! 2"
    using pre by simp_all
  then have e: "k1 ! 0 = k2 ! 0" "k1 ! 1 = k2 ! 1" "k1 ! 2 = k2 ! 2"
    by simp_all
  have ne: "k1 \<noteq> k2" "k2 \<noteq> k1"
    using diff by auto
  have une: "unat (k1 ! 3) \<noteq> unat (k2 ! 3)" "unat (k2 ! 3) \<noteq> unat (k1 ! 3)"
    using diff by (auto simp: word_unat_eq_iff)
  note s = offset2Key_def Let_def unat_byte_nle unat_byte_lt New_def newInternalNode_def
  have first: "Insert (New tc) k1 v1 =
      Inr (InternalNode ((replicate 256 emptyNode)[unat (k1 ! 0) := leafNode k1 v1])
             0 zeroHash None tc, None)"
    using tc len by (simp add: s)
  show ?thesis
    unfolding Let_def
    apply (intro conjI)
    subgoal by (rule first)
    subgoal using tc len ne une e by (simp add: s)
    subgoal using tc len ne une e by (simp add: s)
    subgoal using tc len ne une e by (simp add: s)
    subgoal by (simp only: height_branch [OF unat_byte_lt] height_two_leaves)
    done
qed

theorem insert_two_keys_branch_witness:
  "width tc8 = 8 \<and> nodeWidth tc8 = 256
   \<and> length (replicate 32 (0::byte)) = 32 \<and> length ((replicate 32 (0::byte))[3 := 1]) = 32
   \<and> take 3 (replicate 32 (0::byte)) = take 3 ((replicate 32 (0::byte))[3 := 1])
   \<and> replicate 32 (0::byte) ! 3 \<noteq> (replicate 32 (0::byte))[3 := 1] ! 3
   \<and> Insert (New tc8) (replicate 32 0) (Some [1]) =
       Inr (InternalNode ((replicate 256 emptyNode)[0 := leafNode (replicate 32 0) (Some [1])])
              0 zeroHash None tc8, None)"
  using insert_two_keys_branch
    [of tc8 "replicate 32 0" "(replicate 32 0)[3 := 1]" "Some [1]" "Some [2]"]
  by (simp add: tc8_def Let_def)

text \<open>
  C2. The root of a fresh tree commits to the group identity. For the stateful root
  created by \<open>New\<close>, \<open>ComputeCommitment\<close> returns the identity (and caches it; before
  that call the cached commitment is nil). For the stateless root created by
  \<open>NewStateless\<close>, the stored commitment is the value of \<open>Generator()\<close>, which both
  \<open>Commitment\<close> and \<open>Commit\<close> return.
\<close>

theorem fresh_root_commits_to_identity:
  "ComputeCommitment B (New tc) =
     Inr (InternalNode (replicate (nodeWidth tc) emptyNode) 0 zeroHash (Some 0) tc,
          (0::'g::ab_group_add))
   \<and> Commitment ops (StatelessNode (fst NewStateless) (snd NewStateless)) =
       Inr (Some (0::'h::ab_group_add))
   \<and> Commit ops (StatelessNode (fst NewStateless) (snd NewStateless)) =
       Inr (StatelessNode (fst NewStateless) (snd NewStateless), Some (0::'h))"
  by (simp add: New_def newInternalNode_def ComputeCommitment_children_empty multiExpThreshold_def
      directSum_zeros NewStateless_def Generator_def Commitment_def Commit_body_def lenValues_def
      flip: replicate_add)

text \<open>
  C5, as the code has it. \<open>Get\<close> on an internal node assigns to no field. When the child
  slot selected by the key is \<open>empty\<close> it returns the error ``trying to read from an
  invalid child'', and it returns the same error when that child is a hashed node.
\<close>

theorem Get_invalid_child:
  "offset2Key k d (width tc) = Inr i \<Longrightarrow> i < length cs \<Longrightarrow>
     (cs ! i = emptyNode \<longrightarrow>
        Get (InternalNode cs d h c tc) k =
          Inr (None, Some (errorsNew ''trying to read from an invalid child'')))
     \<and> (cs ! i = hashedNode hh hc \<longrightarrow>
        Get (InternalNode cs d h c tc) k =
          Inr (None, Some (errorsNew ''trying to read from an invalid child'')))"
  by simp

theorem Get_invalid_child_witness:
  "offset2Key (replicate 32 0) 0 (width tc8) = Inr 0
   \<and> 0 < length [hashedNode zeroHash None, emptyNode]
   \<and> [hashedNode zeroHash None, emptyNode] ! 0 = hashedNode zeroHash (None :: int option)
   \<and> Get (InternalNode [hashedNode zeroHash None, emptyNode] 0 zeroHash None tc8) (replicate 32 0) =
       Inr (None, Some (errorsNew ''trying to read from an invalid child''))"
  using Get_invalid_child
    [of "replicate 32 0" 0 tc8 0 "[hashedNode zeroHash None, emptyNode]" zeroHash None zeroHash None]
  by (simp add: tc8_def offset2Key_def)

text \<open>
  The claim C5 as stated fails on a fresh root: the selected child is \<open>empty\<close>, and \<open>Get\<close>
  returns an error instead of the absent value without an error.
\<close>

theorem Get_empty_child_counterexample:
  "in_children (New tc8) ! 0 = emptyNode
   \<and> offset2Key (replicate 32 0) (in_depth (New tc8)) (width tc8) = Inr 0
   \<and> Get (New tc8) (replicate 32 0) \<noteq> Inr (None, None)"
  by (simp add: New_def newInternalNode_def tc8_def offset2Key_def)

section \<open>The stateless tree: proof extraction\<close>

text \<open>
  C3, as the code has it. For every stateless node whose map of values is not empty,
  whatever the order in which the runtime ranges over that map, a proof extraction
  that returns has produced, in this order: the openings \<open>(C, 0, 1)\<close> and
  \<open>(C, 1, stem_as_fr)\<close>; then possibly \<open>(C, 2, to_fr(C1))\<close>, which is emitted only if some
  stored suffix is below 128, and is emitted whenever every stored suffix is below
  128; then \<open>(C, 3, to_fr(C2))\<close> if and only if some stored suffix is at least 128;
  then the openings of the suffixes, which are what the loop over the sorted suffixes
  produces on its own. The three sequences \<open>Cis\<close>, \<open>Zis\<close> and \<open>Yis\<close> are given
  componentwise.
\<close>

theorem GetProofItems_leaf_extension_order:
  assumes vals: "values s = Some vm" "vm \<noteq> Map.empty"
    and ok: "rangeOrder_ok rng vm"
    and ret: "GetProofItems ops rng (StatelessNode ch s) path = Inr pe"
  shows "\<exists>hasC1 q.
      GetProofItems_suffixes ops s (hd path) (sortedKeys vm) emptyProofElements = Inr q
    \<and> Cis pe = [commitment s, commitment s] @ (if hasC1 then [commitment s] else [])
                 @ (if \<exists>sfx \<in> dom vm. sfx \<ge> 128 then [commitment s] else []) @ Cis q
    \<and> Zis pe = [0, 1] @ (if hasC1 then [2] else [])
                 @ (if \<exists>sfx \<in> dom vm. sfx \<ge> 128 then [3] else []) @ Zis q
    \<and> Yis pe = [1, StemFromBytes ops (stem s)]
                 @ (if hasC1 then [toFr ops (the (c1 s))] else [])
                 @ (if \<exists>sfx \<in> dom vm. sfx \<ge> 128 then [toFr ops (the (c2 s))] else []) @ Yis q
    \<and> (hasC1 \<longrightarrow> (\<exists>sfx \<in> dom vm. sfx < 128))
    \<and> ((\<forall>sfx \<in> dom vm. sfx < 128) \<longrightarrow> hasC1)"
proof -
  define h1 where "h1 = fst (hasC_loop (rng vm) False False)"
  define h2 where "h2 = snd (hasC_loop (rng vm) False False)"
  have set: "set (rng vm) = dom vm"
    using ok by (simp add: rangeOrder_ok_def)
  have ne: "rng vm \<noteq> []"
  proof
    assume "rng vm = []"
    with set have "dom vm = {}" by simp
    then have "vm = Map.empty" by simp
    with vals(2) show False by simp
  qed
  have h2: "h2 \<longleftrightarrow> (\<exists>sfx \<in> dom vm. sfx \<ge> 128)"
    by (simp add: h2_def hasC_loop_snd set)
  have h1a: "h1 \<longrightarrow> (\<exists>sfx \<in> dom vm. sfx < 128)"
    using hasC_loop_fst_only_if [of "rng vm" False False] by (auto simp: h1_def set)
  have h1b: "(\<forall>sfx \<in> dom vm. sfx < 128) \<longrightarrow> h1"
    using hasC_loop_fst_if [of "rng vm" False False] ne by (auto simp: h1_def set)
  have leaf: "GetProofItems_leaf ops rng s path = Inr pe"
    using ret by (simp only: leaf_branch [OF vals])
  obtain p0 rest where path: "path = p0 # rest"
    using leaf
    by (cases path)
      (auto simp: GetProofItems_leaf_def Let_def split: sum.splits if_splits option.splits)
  define pe3 :: "('a, 'b) ProofElements" where "pe3 =
     \<lparr>Cis = [commitment s, commitment s] @ (if h1 then [commitment s] else [])
              @ (if h2 then [commitment s] else []),
      Zis = [0, 1] @ (if h1 then [2] else []) @ (if h2 then [3] else []),
      Yis = [1, StemFromBytes ops (stem s)] @ (if h1 then [toFr ops (the (c1 s))] else [])
              @ (if h2 then [toFr ops (the (c2 s))] else []),
      ByPath = [p0 \<mapsto> commitment s]\<rparr>"
  have run: "GetProofItems_suffixes ops s p0 (sortedKeys vm) pe3 = Inr pe"
    using leaf vals(1) unfolding GetProofItems_leaf_def path pe3_def h1_def h2_def
    by (auto simp: Let_def emptyProofElements_def split: sum.splits if_splits option.splits)
  from suffixes_rel [of pe3 ops s p0 "sortedKeys vm"] run
  obtain q where q: "GetProofItems_suffixes ops s p0 (sortedKeys vm) emptyProofElements = Inr q"
    "extends pe3 pe q"
    by (cases "GetProofItems_suffixes ops s p0 (sortedKeys vm) emptyProofElements") auto
  show ?thesis
    apply (rule exI [of _ h1], rule exI [of _ q])
    using q h1a h1b unfolding h2 [symmetric]
    by (simp add: path extends_def pe3_def)
qed

theorem GetProofItems_leaf_extension_order_witness:
  "values (leafFields (replicate 31 0) [5 \<mapsto> Some [1], 200 \<mapsto> None]) = Some [5 \<mapsto> Some [1], 200 \<mapsto> None]
   \<and> [5 \<mapsto> Some [1], 200 \<mapsto> None] \<noteq> (Map.empty :: byte \<rightharpoonup> bytes option)
   \<and> rangeOrder_ok (\<lambda>m. [200, 5]) [5 \<mapsto> Some [1], 200 \<mapsto> None]
   \<and> GetProofItems ops0 (\<lambda>m. [200, 5])
        (StatelessNode None (leafFields (replicate 31 0) [5 \<mapsto> Some [1], 200 \<mapsto> None])) [[]] =
      Inr \<lparr>Cis = [Some 7, Some 7, Some 7, Some 3, Some 3, Some 4, Some 4],
           Zis = [0, 1, 3, 10, 11, 144, 145],
           Yis = [1, 0, 4, 1, 1, 0, 0],
           ByPath = [[] \<mapsto> Some 7, [2] \<mapsto> Some 3, [3] \<mapsto> Some 4]\<rparr>"
  using GetProofItems_leaf_extension_order
    [of "leafFields (replicate 31 0) [5 \<mapsto> Some [1], 200 \<mapsto> None]" "[5 \<mapsto> Some [1], 200 \<mapsto> None]"
      "\<lambda>m. [200, 5]" ops0 None "[[]]"]
  by (simp add: GetProofItems_eval insert_commute)

text \<open>
  The claim C3 as stated fails on a node in leaf mode whose map of values is not nil
  and has no entry: the extraction takes the branch of the internal nodes and emits
  nothing, so the openings \<open>(C, 0, 1)\<close> and \<open>(C, 1, stem_as_fr)\<close> are missing.
\<close>

theorem GetProofItems_empty_values_counterexample:
  "values (leafFields (replicate 31 0) Map.empty) \<noteq> None
   \<and> GetProofItems ops0 (\<lambda>m. []) (StatelessNode None (leafFields (replicate 31 0) Map.empty)) [[]] =
       Inr emptyProofElements"
  by (simp add: GetProofItems_eval)

text \<open>
  C4, evaluated. A leaf stores the suffixes 5 and 200. Both orders of visiting the two
  keys are orders the runtime may choose. When the loop that sets \<open>hasC1\<close> and \<open>hasC2\<close>
  visits 5 first, the extraction emits the evaluation points
  \<open>0, 1, 2, 3, 10, 11, 144, 145\<close>; when it visits 200 first, the \<open>break\<close> leaves \<open>hasC1\<close>
  unset and the extraction emits \<open>0, 1, 3, 10, 11, 144, 145\<close>: the opening of \<open>C1\<close> at
  the extension level is missing.
\<close>

theorem GetProofItems_range_order_dependent:
  "rangeOrder_ok (\<lambda>m. [5, 200]) [5 \<mapsto> Some [1], 200 \<mapsto> Some [2]]
   \<and> rangeOrder_ok (\<lambda>m. [200, 5]) [5 \<mapsto> Some [1], 200 \<mapsto> Some [2]]
   \<and> map_sum id Zis (GetProofItems ops0 (\<lambda>m. [5, 200])
         (StatelessNode None (leafFields (replicate 31 0) [5 \<mapsto> Some [1], 200 \<mapsto> Some [2]])) [[]]) =
       Inr [0, 1, 2, 3, 10, 11, 144, 145]
   \<and> map_sum id Zis (GetProofItems ops0 (\<lambda>m. [200, 5])
         (StatelessNode None (leafFields (replicate 31 0) [5 \<mapsto> Some [1], 200 \<mapsto> Some [2]])) [[]]) =
       Inr [0, 1, 3, 10, 11, 144, 145]"
  by (simp add: GetProofItems_eval insert_commute)

section \<open>The stateless tree: insertion, deletion, lookup\<close>

text \<open>
  C6, evaluated. The root has no child in slot 0 and the unresolved entry
  \<open>unresolved[0]\<close>. An insertion under a stem that begins with 0 installs a hashed
  placeholder in \<open>children[0]\<close>; when the resolver fails, the call returns an error and
  leaves both \<open>children[0]\<close> and \<open>unresolved[0]\<close> populated. When the resolver and the
  parser succeed, the call returns without an error, \<open>children[0]\<close> holds the resolved
  node, and \<open>unresolved[0]\<close> is still populated.
\<close>

theorem InsertAtStem_keeps_unresolved:
  "(case InsertAtStem (Suc 0) ops0 unresolvedRoot (replicate 31 0)
           ((replicate NodeWidth None)[0 := Some [1]]) noResolver of
      Some (Inr (n', err)) \<Rightarrow>
        err \<noteq> None \<and> lookupChild (fst n') 0 = Some (HashedNode [7] None)
        \<and> unresolved (snd n') 0 = Some [7]
    | _ \<Rightarrow> False)
   \<and> (case InsertAtStem (Suc (Suc 0)) ops1 unresolvedRoot (replicate 31 0)
           ((replicate NodeWidth None)[0 := Some [1]]) storeResolver of
      Some (Inr (n', err)) \<Rightarrow>
        err = None \<and> lookupChild (fst n') 0 \<noteq> None \<and> unresolved (snd n') 0 = Some [7]
    | _ \<Rightarrow> False)"
  apply (simp add: values_256 unresolvedRoot_def)
  apply (simp add: InsertAtStem_eval rootFields_def leafFields_def ops0_def ops1_def
      noResolver_def storeResolver_def parsedLeaf_def)
  done

text \<open>
  C7, evaluated. The root holds in slot 0 a stateless leaf with stem \<open>01...01\<close>. The key
  of 32 zero bytes has another stem, and its path leads to that leaf. \<open>Delete\<close> of this
  key returns without an error; a \<open>Get\<close> of the same key on the resulting tree returns
  the absent value, not 32 zero bytes.
\<close>

theorem Delete_other_stem_reads_absent:
  "(case Delete (Suc (Suc 0)) ops0 proofRoot (replicate 32 0) noResolver of
      Some (Inr (n', err)) \<Rightarrow>
        err = None
        \<and> (case StatelessNode_Get (Suc (Suc 0)) ops0 n' (replicate 32 0) noResolver of
              Some (Inr (n'', v, err')) \<Rightarrow> v = None \<and> err' = None
            | _ \<Rightarrow> False)
    | _ \<Rightarrow> False)"
  apply (simp add: Delete_def StatelessNode_Insert_def values_256 proofRoot_def otherLeaf_def)
  apply (simp add: InsertAtStem_eval rootFields_def leafFields_def ops0_def Get_child_def)
  done

text \<open>
  C8, evaluated. On the same tree, \<open>insertValue\<close> of a value under the key of 32 zero
  bytes reaches, at depth 1, the leaf with stem \<open>01...01\<close>. Called on that leaf,
  \<open>insertValue\<close> returns \<open>errInsertIntoOtherStem\<close>; called on the root, it returns no
  error and leaves the tree as it was.
\<close>

theorem insertValue_drops_other_stem_error:
  "insertValue (StatelessNode (fst proofRoot) (snd proofRoot)) (replicate 32 0) (Some [1]) =
     Inr (StatelessNode (fst proofRoot) (snd proofRoot), None)
   \<and> insertValue otherLeaf (replicate 32 0) (Some [1]) =
       Inr (otherLeaf, Some errInsertIntoOtherStem)"
  by (simp add: proofRoot_def otherLeaf_def rootFields_def leafFields_def insertValue_body_def
      lenChildren_def offset2key_def lookupChild_def setChild_def)

section \<open>The stateless tree: copy on write and commit\<close>

text \<open>
  C9. On a stateless internal node, the first \<open>cowChild(i)\<close> of a batch (no snapshot
  for \<open>i\<close> yet) stores in \<open>cow[i]\<close> a newly allocated point, different from the point
  that the child's \<open>Commitment()\<close> returns, holding the value of the child's commitment
  at that moment. A later write through the child's pointer does not change the
  snapshot, and every later \<open>cowChild(i)\<close> while \<open>cow[i]\<close> is set, whatever the store
  and the children have become, changes neither the store nor \<open>cow\<close>.
\<close>

theorem cowChild_snapshot_first_touch:
  assumes alloc: "src < free st" and val: "cell st src = Some v"
    and first: "cowp i = None"
    and child: "child_Commitment i = Some (Inr (Some src))"
  shows "\<exists>a st1.
      cowChild_store st False cowp child_Commitment i = Inr (st1, cowp(i \<mapsto> a))
    \<and> a \<noteq> src \<and> cell st1 a = Some v
    \<and> (\<forall>w. cell (st1\<lparr>cell := (cell st1)(src \<mapsto> w)\<rparr>) a = Some v)
    \<and> (\<forall>st2 cc. cowChild_store st2 False (cowp(i \<mapsto> a)) cc i = Inr (st2, cowp(i \<mapsto> a)))"
  using assms
  by (auto simp: cowChild_store_def new_Point_def CopyPoint_def)

theorem cowChild_snapshot_first_touch_witness:
  "(0::nat) < free \<lparr>cell = [0 \<mapsto> (7::int)], free = 1\<rparr>
   \<and> cell \<lparr>cell = [0 \<mapsto> (7::int)], free = 1\<rparr> 0 = Some 7
   \<and> (Map.empty :: byte \<rightharpoonup> addr) 0 = None
   \<and> [(0::byte) \<mapsto> (Inr (Some 0) :: panic + addr option)] 0 = Some (Inr (Some 0))
   \<and> cowChild_store \<lparr>cell = [0 \<mapsto> (7::int)], free = 1\<rparr> False Map.empty
        [0 \<mapsto> Inr (Some 0)] 0 =
       Inr (\<lparr>cell = [0 \<mapsto> 7, 1 \<mapsto> 7], free = 2\<rparr>, [0 \<mapsto> 1])"
  using cowChild_snapshot_first_touch
    [of 0 "\<lparr>cell = [0 \<mapsto> (7::int)], free = 1\<rparr>" 7 Map.empty 0 "[0 \<mapsto> Inr (Some 0)]"]
  by (simp add: cowChild_store_def new_Point_def CopyPoint_def)

text \<open>
  C10. On a stateless node whose map of values is not empty, \<open>Commit\<close> returns the
  stored commitment and leaves every field of the node as it was, whatever the
  values, the stem and the sub-commitments are.
\<close>

theorem Commit_leaf_unchanged:
  "values s = Some vm \<Longrightarrow> vm \<noteq> Map.empty \<Longrightarrow>
     Commit ops (StatelessNode ch s) = Inr (StatelessNode ch s, commitment s)"
  by (simp add: Commit_body_def lenValues_eq_0_iff)

theorem Commit_leaf_unchanged_witness:
  "values (leafFields (replicate 31 0) [5 \<mapsto> Some [1]]) = Some [5 \<mapsto> Some [1]]
   \<and> [5 \<mapsto> Some [1]] \<noteq> (Map.empty :: byte \<rightharpoonup> bytes option)
   \<and> Commit ops0 (StatelessNode None (leafFields (replicate 31 0) [5 \<mapsto> Some [1]])) =
       Inr (StatelessNode None (leafFields (replicate 31 0) [5 \<mapsto> Some [1]]), Some 7)"
  using Commit_leaf_unchanged [of "leafFields (replicate 31 0) [5 \<mapsto> Some [1]]" "[5 \<mapsto> Some [1]]" ops0 None]
  by (simp add: leafFields_def)

end
